theory Spec2Isabelle
  imports Complex_Main
begin

section \<open>The LHSPG optimizer (only\_train\_once/optimizer/lhspg.py)\<close>

text \<open>
  A shallow embedding of the optimizer class \<open>LHSPG\<close>: its constructor, the gradient
  variant pass, importance-score bookkeeping, the redundant-group selector, the commit
  of redundant indices and \<open>step\<close>.

  Conventions of the embedding.
  \<^item> Python integers are \<open>int\<close>; indices and lengths that can never be negative are
    \<open>nat\<close>. Python floats are \<open>real\<close>: rounding is not modelled.
  \<^item> Every \<open>raise\<close> of the source is a value \<open>Inl e\<close> of \<open>error + 'a\<close>.
  \<^item> A tensor is a vector or a matrix of reals; the parameter tensors live in one store
    keyed by tensor name (\<open>self.named_parameters\<close>), and a parameter group refers to
    its tensors by \<open>p_names\<close>. Tensor names are taken to be unique, as the names of a
    model's parameters are. The loops over \<open>zip(group['p_names'], group['params'], ...)\<close>
    visit the names that have a tensor: \<open>zip\<close> stops at the shortest list.
  \<^item> Parameter groups carry no hyper-parameter overrides, so \<open>group['lr']\<close>,
    \<open>group['variant']\<close>, ... are the values the constructor put in \<open>defaults\<close>.
  \<^item> \<open>tensor_transformation\<close>, \<open>DEFAULT_OPT_PARAMS\<close> and the importance-score
    function are imported from modules that are not part of the source at hand; they are
    parameters of the model (record \<open>env\<close>, and the scores in \<open>step_input\<close>).
\<close>

subsection \<open>Errors, strings, tensors\<close>

datatype error =
    ValueError
  | ZeroDivisionError
  | KeyError string
  | IndexError
  | RuntimeError
  | TypeError

text \<open>Python's \<open>a // b\<close> on integers: floor division, raising on a zero divisor.\<close>

definition py_floordiv :: "int \<Rightarrow> int \<Rightarrow> error + int" where
  "py_floordiv a b = (if b = 0 then Inl ZeroDivisionError else Inr (a div b))"

text \<open>Python's \<open>a % b\<close> on integers: the sign follows the divisor, as HOL's \<open>mod\<close> does.\<close>

definition py_mod :: "int \<Rightarrow> int \<Rightarrow> error + int" where
  "py_mod a b = (if b = 0 then Inl ZeroDivisionError else Inr (a mod b))"

text \<open>\<open>int(x)\<close> on a float truncates towards zero.\<close>

definition py_int :: "real \<Rightarrow> int" where
  "py_int x = (if 0 \<le> x then \<lfloor>x\<rfloor> else \<lceil>x\<rceil>)"

text \<open>\<open>xs[:r]\<close>: a negative bound counts from the end.\<close>

definition py_take :: "int \<Rightarrow> 'a list \<Rightarrow> 'a list" where
  "py_take r xs = (if 0 \<le> r then take (nat r) xs else take (length xs - nat (- r)) xs)"

fun starts_with :: "string \<Rightarrow> string \<Rightarrow> bool" where
  "starts_with [] s = True"
| "starts_with (c # cs) [] = False"
| "starts_with (c # cs) (d # ds) = (c = d \<and> starts_with cs ds)"

text \<open>\<open>sub in s\<close> on strings.\<close>

fun str_contains :: "string \<Rightarrow> string \<Rightarrow> bool" where
  "str_contains sub [] = (sub = [])"
| "str_contains sub (c # cs) = (starts_with sub (c # cs) \<or> str_contains sub cs)"

text \<open>\<open>s.split(sub)[0]\<close>: what stands before the first occurrence of \<open>sub\<close>.\<close>

fun split_head :: "string \<Rightarrow> string \<Rightarrow> string" where
  "split_head sub [] = []"
| "split_head sub (c # cs) = (if starts_with sub (c # cs) then [] else c # split_head sub cs)"

datatype tensor = Vec "real list" | Mat "real list list"

datatype TensorTransform =
    NO_PRUNE
  | BASIC
  | TRANSPOSE
  | MULTIHEAD_HEADDIM
  | MULTIHEAD_NUMHEAD
  | REVERSE_MULTIHEAD_HEADDIM
  | REVERSE_MULTIHEAD_NUMHEAD

subsection \<open>Parameter groups and constructor arguments\<close>

record param_group =
  group_id :: nat
  p_names :: "string list"
  p_transform :: "TensorTransform list"
  num_groups :: nat
  is_prunable :: bool
  is_auxiliary :: bool
  num_heads :: nat
  head_dim :: nat

text \<open>\<open>target_group_sparsity\<close> is a float or a dict from cluster name to float.\<close>

datatype sparsity_target = Scalar real | PerCluster "(string \<times> real) list"

record opt_params =
  default_first_momentum :: real
  default_second_momentum :: real
  default_dampening :: real
  default_weight_decay :: real

record env =
  DEFAULT_OPT_PARAMS :: "string \<rightharpoonup> opt_params"
  tensor_transformation :: "tensor \<Rightarrow> TensorTransform \<Rightarrow> nat \<Rightarrow> nat option \<Rightarrow> real list list"
  mask_transformation :: "bool list \<Rightarrow> TensorTransform \<Rightarrow> nat \<Rightarrow> nat \<Rightarrow> bool list"

record ctor_args =
  arg_params :: "param_group list"
  arg_tensors :: "string \<rightharpoonup> tensor"
  arg_variant :: string
  arg_lr :: real
  arg_first_momentum :: "real option"
  arg_second_momentum :: "real option"
  arg_dampening :: "real option"
  arg_weight_decay :: "real option"
  arg_target_group_sparsity :: sparsity_target
  arg_start_pruning_step :: int
  arg_pruning_steps :: int
  arg_pruning_periods :: int
  arg_group_divisible :: int

subsection \<open>The optimizer's state\<close>

text \<open>
  One record per cluster stands for the dicts keyed by cluster name that the constructor
  fills and never changes afterwards (\<open>prunable_param_group_clusters\<close>,
  \<open>total_num_groups_by_clusters\<close>, \<open>target_num_redundant_groups_by_clusters\<close>,
  \<open>active_num_redundant_groups_by_clusters\<close>); the list of clusters keeps the dicts'
  insertion order. A cluster's members are positions in \<open>param_groups\<close>: the source
  stores references to the group dicts themselves.
\<close>

record cluster =
  cluster_name :: string
  cluster_gs :: real
  members :: "nat list"
  total_num_groups_by_cluster :: int
  target_num_redundant_groups_by_cluster :: int
  active_num_redundant_groups :: "int \<rightharpoonup> int"

record lhspg_fixed =
  variant :: string
  lr :: real
  weight_decay :: "real option"
  first_momentum :: real
  second_momentum :: real
  dampening :: real
  start_pruning_step :: int
  pruning_steps :: int
  pruning_periods :: int
  pruning_period_duration :: int
  group_divisible :: int
  param_groups :: "param_group list"
  clusters :: "cluster list"
  total_num_groups :: int

record lhspg_sched =
  num_steps :: int
  curr_pruning_period :: int
  target_num_redundant_groups :: int
  pruned_group_idx_by_cluster :: "string \<Rightarrow> nat list"
  important_idxes :: "nat \<Rightarrow> nat list"
  pruned_idxes :: "nat \<Rightarrow> nat list"
  active_redundant_idxes :: "nat \<Rightarrow> nat list"
  curr_num_zero_groups :: int
  global_start_idx :: "nat \<Rightarrow> nat"
  cluster_importance_scores :: "string \<Rightarrow> real list list"
  active_redundant_bool :: "nat \<rightharpoonup> bool list"

record lhspg_store =
  named_parameters :: "string \<rightharpoonup> tensor"
  first_moment_grads :: "nat \<times> nat \<rightharpoonup> tensor"
  second_moment_grads :: "nat \<times> nat \<rightharpoonup> tensor"
  grad_variant :: "nat \<Rightarrow> (string \<rightharpoonup> tensor)"

record lhspg =
  fixed :: lhspg_fixed
  sched :: lhspg_sched
  store :: lhspg_store

subsection \<open>Diagnostics: \<open>compute_group_sparsity_param_norm\<close>\<close>

text \<open>\<open>torch.norm(param_transform, dim=1) ** 2\<close>, one entry per row.\<close>

definition row_norms_sq :: "real list list \<Rightarrow> real list" where
  "row_norms_sq m = map (\<lambda>row. (sqrt (sum_list (map (\<lambda>x. x * x) row))) ^ 2) m"

text \<open>
  \<open>norm_group += v\<close> on vectors: elementwise, a one-element right operand is broadcast,
  any other mismatch of lengths is torch's RuntimeError.
\<close>

definition add_norms :: "real list \<Rightarrow> real list \<Rightarrow> error + real list" where
  "add_norms acc v =
     (if length v = length acc then Inr (map2 (+) acc v)
      else if length v = 1 then Inr (map (\<lambda>a. a + hd v) acc)
      else Inl RuntimeError)"

fun norm_group_loop ::
  "env \<Rightarrow> (string \<rightharpoonup> tensor) \<Rightarrow> param_group \<Rightarrow> (string \<times> TensorTransform) list \<Rightarrow>
   real list option \<Rightarrow> error + real list option" where
  "norm_group_loop e ps g [] norm_group = Inr norm_group"
| "norm_group_loop e ps g ((p_name, tr) # rest) norm_group =
     (if tr = NO_PRUNE then norm_group_loop e ps g rest norm_group
      else
        (case ps p_name of
           None \<Rightarrow> norm_group_loop e ps g rest norm_group
         | Some param \<Rightarrow>
            (let param_transform =
                   (if tr = MULTIHEAD_HEADDIM
                    then tensor_transformation e param tr (num_groups g) (Some (num_heads g))
                    else tensor_transformation e param tr (num_groups g) None)
             in (case norm_group of
                   None \<Rightarrow> norm_group_loop e ps g rest (Some (row_norms_sq param_transform))
                 | Some acc \<Rightarrow>
                    (case add_norms acc (row_norms_sq param_transform) of
                       Inl err \<Rightarrow> Inl err
                     | Inr acc' \<Rightarrow> norm_group_loop e ps g rest (Some acc'))))))"

text \<open>
  The number of zero groups of one parameter group: \<open>torch.sqrt(None)\<close> is a TypeError
  when every tensor of the group is \<open>NO_PRUNE\<close>.
\<close>

definition num_zero_groups :: "env \<Rightarrow> (string \<rightharpoonup> tensor) \<Rightarrow> param_group \<Rightarrow> error + int" where
  "num_zero_groups e ps g =
     (case norm_group_loop e ps g (zip (p_names g) (p_transform g)) None of
        Inl err \<Rightarrow> Inl err
      | Inr None \<Rightarrow> Inl TypeError
      | Inr (Some norm_group) \<Rightarrow> Inr (int (length (filter (\<lambda>x. sqrt x = 0) norm_group))))"

text \<open>
  Of the three results of \<open>compute_group_sparsity_param_norm\<close> only the third,
  \<open>total_num_zero_groups\<close>, is read again by the optimizer; it is the one modelled.
\<close>

fun compute_group_sparsity_param_norm ::
  "env \<Rightarrow> (string \<rightharpoonup> tensor) \<Rightarrow> param_group list \<Rightarrow> int \<Rightarrow> error + int" where
  "compute_group_sparsity_param_norm e ps [] total_num_zero_groups = Inr total_num_zero_groups"
| "compute_group_sparsity_param_norm e ps (g # gs) total_num_zero_groups =
     (if is_prunable g \<and> \<not> is_auxiliary g then
        (case num_zero_groups e ps g of
           Inl err \<Rightarrow> Inl err
         | Inr n \<Rightarrow> compute_group_sparsity_param_norm e ps gs (total_num_zero_groups + n))
      else compute_group_sparsity_param_norm e ps gs total_num_zero_groups)"

subsection \<open>The constructor\<close>

definition sparsity_dict :: "sparsity_target \<Rightarrow> (string \<times> real) list" where
  "sparsity_dict t = (case t of Scalar s \<Rightarrow> [(''overall'', s)] | PerCluster d \<Rightarrow> d)"

text \<open>Lines 80-84: some tensor name of the group contains the cluster's name.\<close>

definition in_cluster :: "string \<Rightarrow> param_group \<Rightarrow> bool" where
  "in_cluster name g = list_ex (str_contains name) (p_names g)"

definition cluster_members :: "param_group list \<Rightarrow> string \<Rightarrow> nat list" where
  "cluster_members gs name =
     filter (\<lambda>i. is_prunable (gs ! i) \<and> in_cluster name (gs ! i)) [0..<length gs]"

definition sum_num_groups :: "param_group list \<Rightarrow> nat list \<Rightarrow> int" where
  "sum_num_groups gs ms = sum_list (map (\<lambda>i. int (num_groups (gs ! i))) ms)"

text \<open>Lines 116-124: the quota of each pruning period, the remainder going to the last.\<close>

fun active_num_loop ::
  "int \<Rightarrow> int \<Rightarrow> int list \<Rightarrow> int \<Rightarrow> (int \<rightharpoonup> int) \<Rightarrow> (int \<rightharpoonup> int)" where
  "active_num_loop target periods [] groups_sum m = m"
| "active_num_loop target periods (p # ps) groups_sum m =
     (if p = periods - 1
      then active_num_loop target periods ps groups_sum (m(p \<mapsto> target - groups_sum))
      else active_num_loop target periods ps (groups_sum + target div periods)
             (m(p \<mapsto> target div periods)))"

definition make_cluster :: "param_group list \<Rightarrow> int \<Rightarrow> string \<times> real \<Rightarrow> cluster" where
  "make_cluster gs periods entry =
     (let name = fst entry;
          gsp = snd entry;
          ms = cluster_members gs name;
          total = sum_num_groups gs ms;
          target = (if ms = [] then 0 else py_int (real_of_int total * min gsp 0.999))
      in \<lparr> cluster_name = name, cluster_gs = gsp, members = ms,
           total_num_groups_by_cluster = total,
           target_num_redundant_groups_by_cluster = target,
           active_num_redundant_groups =
             active_num_loop target periods [0..periods - 1] 0 Map.empty \<rparr>)"

definition resolve ::
  "env \<Rightarrow> string \<Rightarrow> real option \<Rightarrow> (opt_params \<Rightarrow> real) \<Rightarrow> error + real" where
  "resolve e v given field =
     (case given of
        Some x \<Rightarrow> Inr x
      | None \<Rightarrow>
         (case DEFAULT_OPT_PARAMS e v of
            None \<Rightarrow> Inl (KeyError v)
          | Some d \<Rightarrow> Inr (field d)))"

definition init_sched :: "param_group list \<Rightarrow> cluster list \<Rightarrow> int \<Rightarrow> lhspg_sched" where
  "init_sched gs cls nz =
     \<lparr> num_steps = 0,
       curr_pruning_period = 0,
       target_num_redundant_groups =
         sum_list (map target_num_redundant_groups_by_cluster cls),
       pruned_group_idx_by_cluster = (\<lambda>_. []),
       important_idxes =
         fold (\<lambda>g m. m(group_id g := [0..<num_groups g])) gs (\<lambda>_. []),
       pruned_idxes = (\<lambda>_. []),
       active_redundant_idxes = (\<lambda>_. []),
       curr_num_zero_groups = nz,
       global_start_idx = (\<lambda>_. 0),
       cluster_importance_scores = (\<lambda>_. []),
       active_redundant_bool = Map.empty \<rparr>"

definition init :: "env \<Rightarrow> ctor_args \<Rightarrow> error + lhspg" where
  "init e a =
     (if arg_lr a < 0 then Inl ValueError
      else
        (let periods = max 1 (arg_pruning_periods a) in
         case py_floordiv (arg_pruning_steps a) periods of
           Inl err \<Rightarrow> Inl err
         | Inr duration \<Rightarrow>
        (case resolve e (arg_variant a) (arg_first_momentum a) default_first_momentum of
           Inl err \<Rightarrow> Inl err
         | Inr fm \<Rightarrow>
        (case resolve e (arg_variant a) (arg_second_momentum a) default_second_momentum of
           Inl err \<Rightarrow> Inl err
         | Inr sm \<Rightarrow>
        (case resolve e (arg_variant a) (arg_dampening a) default_dampening of
           Inl err \<Rightarrow> Inl err
         | Inr dp \<Rightarrow>
        (case resolve e (arg_variant a) (arg_weight_decay a) default_weight_decay of
           Inl err \<Rightarrow> Inl err
         | Inr wd \<Rightarrow>
        (let gs = arg_params a;
             cls = map (make_cluster gs periods) (sparsity_dict (arg_target_group_sparsity a))
         in case compute_group_sparsity_param_norm e (arg_tensors a) gs 0 of
              Inl err \<Rightarrow> Inl err
            | Inr nz \<Rightarrow>
               Inr \<lparr> fixed =
                       \<lparr> variant = arg_variant a, lr = arg_lr a, weight_decay = Some wd,
                         first_momentum = fm, second_momentum = sm, dampening = dp,
                         start_pruning_step = arg_start_pruning_step a,
                         pruning_steps = arg_pruning_steps a,
                         pruning_periods = periods,
                         pruning_period_duration = duration,
                         group_divisible = arg_group_divisible a,
                         param_groups = gs,
                         clusters = cls,
                         total_num_groups = sum_list (map total_num_groups_by_cluster cls) \<rparr>,
                     sched = init_sched gs cls nz,
                     store =
                       \<lparr> named_parameters = arg_tensors a,
                         first_moment_grads = Map.empty,
                         second_moment_grads = Map.empty,
                         grad_variant = (\<lambda>_. Map.empty) \<rparr> \<rparr>)))))))"

subsection \<open>Committing redundant indices\<close>

text \<open>
  \<open>commit_redundant_idxes\<close>. The last statement of the loop body clears the group's
  cache of raw scores; the scores are an input of each step here, so nothing is kept
  of them.
\<close>

fun commit_loop :: "param_group list \<Rightarrow> lhspg_sched \<Rightarrow> lhspg_sched" where
  "commit_loop [] s = s"
| "commit_loop (g # gs) s =
     (if is_prunable g \<and> \<not> is_auxiliary g then
        (let i = group_id g;
             pruned = pruned_idxes s i @ active_redundant_idxes s i
         in commit_loop gs
              (s\<lparr> pruned_idxes := (pruned_idxes s)(i := pruned),
                  active_redundant_idxes := (active_redundant_idxes s)(i := []),
                  important_idxes :=
                    (important_idxes s)(i := filter (\<lambda>k. k \<notin> set pruned) [0..<num_groups g]) \<rparr>))
      else commit_loop gs s)"

definition commit_redundant_idxes :: "lhspg_fixed \<Rightarrow> lhspg_sched \<Rightarrow> lhspg_sched" where
  "commit_redundant_idxes f s = commit_loop (param_groups f) s"

subsection \<open>Importance scores\<close>

text \<open>
  \<open>compute_importance_scores\<close>. Lines 175-204 call the scoring function of the module
  \<open>importance_score\<close>, which is not part of the source, and rescale what it returns;
  \<open>scores name p\<close> stands for the value of \<open>group['importance_scores']['overall']\<close> that
  line 209 appends for the cluster \<open>name\<close> and the group at position \<open>p\<close>. (Line 177
  calls the function under the name \<open>calculate_importance_score_lhspg\<close> while line 7
  imports \<open>calculate_importance_score_lora\<close>; the model takes the call as the call of
  that module's scoring function.) Lines 206-208 are modelled as written;
  \<open>group['global_idxes']\<close> is always the range of \<open>num_groups\<close> indices that starts at
  \<open>group['global_start_idx']\<close>, so only the start is stored.
\<close>

fun scores_loop ::
  "(nat \<Rightarrow> real list) \<Rightarrow> param_group list \<Rightarrow> nat list \<Rightarrow> nat \<Rightarrow> real list list \<Rightarrow>
   (nat \<Rightarrow> nat) \<Rightarrow> real list list \<times> (nat \<Rightarrow> nat)" where
  "scores_loop sc gs [] start acc gsi = (acc, gsi)"
| "scores_loop sc gs (p # ps) start acc gsi =
     (if is_prunable (gs ! p) \<and> \<not> is_auxiliary (gs ! p)
      then scores_loop sc gs ps (start + num_groups (gs ! p)) (acc @ [sc p]) (gsi(p := start))
      else scores_loop sc gs ps start acc gsi)"

fun scores_clusters ::
  "(string \<Rightarrow> nat \<Rightarrow> real list) \<Rightarrow> param_group list \<Rightarrow> cluster list \<Rightarrow> lhspg_sched \<Rightarrow>
   lhspg_sched" where
  "scores_clusters sc gs [] s = s"
| "scores_clusters sc gs (c # cs) s =
     (let r = scores_loop (sc (cluster_name c)) gs (members c) 0 [] (global_start_idx s)
      in scores_clusters sc gs cs
           (s\<lparr> global_start_idx := snd r,
               cluster_importance_scores :=
                 (cluster_importance_scores s)(cluster_name c := fst r) \<rparr>))"

definition compute_importance_scores ::
  "lhspg_fixed \<Rightarrow> (string \<Rightarrow> nat \<Rightarrow> real list) \<Rightarrow> lhspg_sched \<Rightarrow> lhspg_sched" where
  "compute_importance_scores f sc s =
     scores_clusters sc (param_groups f) (clusters f)
       (s\<lparr> cluster_importance_scores := (\<lambda>_. []) \<rparr>)"

subsection \<open>The redundant-group selector\<close>

text \<open>
  \<open>torch.topk(-score, k)[1]\<close>: the indices of the \<open>k\<close> lowest scores, lowest first; it
  raises when \<open>k\<close> is outside \<open>0 .. len(score)\<close>. The order among equal scores is left
  open by torch; the model takes the lower index first.
\<close>

definition topk_lowest :: "real list \<Rightarrow> int \<Rightarrow> error + nat list" where
  "topk_lowest score k =
     (if k < 0 \<or> int (length score) < k then Inl RuntimeError
      else Inr (take (nat k) (sort_key (\<lambda>i. score ! i) [0..<length score])))"

text \<open>\<open>np.setdiff1d\<close> and \<open>np.intersect1d\<close> return sorted arrays without repetitions.\<close>

definition setdiff1d :: "nat list \<Rightarrow> nat list \<Rightarrow> nat list" where
  "setdiff1d xs ys = sort (remdups (filter (\<lambda>x. x \<notin> set ys) xs))"

definition intersect1d :: "nat list \<Rightarrow> nat list \<Rightarrow> nat list" where
  "intersect1d xs ys = sort (remdups (filter (\<lambda>x. x \<in> set ys) xs))"

text \<open>Lines 248-250: the important indices and the boolean mask of the group.\<close>

definition finish_group :: "param_group \<Rightarrow> nat \<Rightarrow> lhspg_sched \<Rightarrow> lhspg_sched" where
  "finish_group g p s =
     (let i = group_id g in
      s\<lparr> important_idxes :=
           (important_idxes s)(i :=
              filter (\<lambda>k. k \<notin> set (active_redundant_idxes s i) \<and> k \<notin> set (pruned_idxes s i))
                (important_idxes s i)),
         active_redundant_bool :=
           (active_redundant_bool s)(p \<mapsto>
              map (\<lambda>k. k \<in> set (active_redundant_idxes s i)) [0..<num_groups g]) \<rparr>)"

text \<open>Lines 238-244: the number of important groups after refinement by \<open>group_divisible\<close>.\<close>

definition refined_num_important_groups :: "int \<Rightarrow> int \<Rightarrow> int \<Rightarrow> int" where
  "refined_num_important_groups d n trial =
     (let ratio = trial div d + 1
      in min n (if ratio \<le> 1 \<or> trial = 0 then max d 1 else max (ratio * d) d))"

text \<open>Lines 228-250 for one group of the cluster, at position \<open>p\<close> of \<open>param_groups\<close>.\<close>

definition identify_group ::
  "int \<Rightarrow> param_group \<Rightarrow> nat \<Rightarrow> nat list \<Rightarrow> lhspg_sched \<Rightarrow> error + lhspg_sched" where
  "identify_group d g p top_indices s =
     (let i = group_id g;
          start = global_start_idx s p;
          global_active_redundant_idx = intersect1d top_indices [start..<start + num_groups g];
          active = map (\<lambda>x. x - start) global_active_redundant_idx
      in
      if int (num_groups g) < d then
        Inr (finish_group g p
               (s\<lparr> active_redundant_idxes := (active_redundant_idxes s)(i := []),
                   pruned_idxes := (pruned_idxes s)(i := []) \<rparr>))
      else
        (let curr_num_important_groups = int (length (important_idxes s i));
             trial = curr_num_important_groups - int (length active)
         in case py_mod trial d of
              Inl err \<Rightarrow> Inl err
            | Inr r \<Rightarrow>
               if r \<noteq> 0 \<or> trial \<le> 0 then
                 (let refined = refined_num_important_groups d (int (num_groups g)) trial;
                      refined_num_active =
                        int (num_groups g) - int (length (pruned_idxes s i)) - refined
                  in Inr (finish_group g p
                       (s\<lparr> target_num_redundant_groups :=
                             target_num_redundant_groups s
                               + (refined_num_active - int (length active)),
                           active_redundant_idxes :=
                             (active_redundant_idxes s)(i := py_take refined_num_active active) \<rparr>)))
               else
                 Inr (finish_group g p
                        (s\<lparr> active_redundant_idxes := (active_redundant_idxes s)(i := active) \<rparr>))))"

fun identify_groups ::
  "lhspg_fixed \<Rightarrow> nat list \<Rightarrow> nat list \<Rightarrow> lhspg_sched \<Rightarrow> error + lhspg_sched" where
  "identify_groups f [] top_indices s = Inr s"
| "identify_groups f (p # ps) top_indices s =
     (let g = param_groups f ! p in
      if is_prunable g \<and> \<not> is_auxiliary g then
        (case identify_group (group_divisible f) g p top_indices s of
           Inl err \<Rightarrow> Inl err
         | Inr s' \<Rightarrow> identify_groups f ps top_indices s')
      else identify_groups f ps top_indices s)"

text \<open>Lines 220-223: the indices that become redundant in this round.\<close>

definition select_top_indices :: "real list \<Rightarrow> nat list \<Rightarrow> int \<Rightarrow> error + nat list" where
  "select_top_indices score pruned quota =
     (let curr_K = int (length pruned) + quota
      in case topk_lowest score curr_K of
           Inl err \<Rightarrow> Inl err
         | Inr top_indices \<Rightarrow> Inr (py_take quota (setdiff1d top_indices pruned)))"

definition identify_cluster :: "lhspg_fixed \<Rightarrow> cluster \<Rightarrow> lhspg_sched \<Rightarrow> error + lhspg_sched" where
  "identify_cluster f c s =
     (let name = cluster_name c in
      if length (cluster_importance_scores s name) = 0 then Inr s
      else
        (case active_num_redundant_groups c (curr_pruning_period s) of
           None \<Rightarrow> Inl (KeyError ''curr_pruning_period'')
         | Some quota \<Rightarrow>
            (case select_top_indices (concat (cluster_importance_scores s name))
                    (pruned_group_idx_by_cluster s name) quota of
               Inl err \<Rightarrow> Inl err
             | Inr top_indices \<Rightarrow>
                identify_groups f (members c) top_indices
                  (s\<lparr> pruned_group_idx_by_cluster :=
                        (pruned_group_idx_by_cluster s)
                          (name := pruned_group_idx_by_cluster s name @ top_indices) \<rparr>))))"

fun identify_clusters :: "lhspg_fixed \<Rightarrow> cluster list \<Rightarrow> lhspg_sched \<Rightarrow> error + lhspg_sched" where
  "identify_clusters f [] s = Inr s"
| "identify_clusters f (c # cs) s =
     (case identify_cluster f c s of
        Inl err \<Rightarrow> Inl err
      | Inr s' \<Rightarrow> identify_clusters f cs s')"

definition identify_redundant_groups :: "lhspg_fixed \<Rightarrow> lhspg_sched \<Rightarrow> error + lhspg_sched" where
  "identify_redundant_groups f s = identify_clusters f (clusters f) s"

definition reach_target_group_sparsity :: "lhspg_sched \<Rightarrow> bool" where
  "reach_target_group_sparsity s =
     (if curr_num_zero_groups s < target_num_redundant_groups s then False else True)"

text \<open>Lines 301-307 of \<open>step\<close>: the selection round, when one is due.\<close>

definition schedule ::
  "lhspg_fixed \<Rightarrow> (string \<Rightarrow> nat \<Rightarrow> real list) \<Rightarrow> lhspg_sched \<Rightarrow> error + lhspg_sched" where
  "schedule f sc s =
     (if start_pruning_step f \<le> num_steps s \<and> \<not> reach_target_group_sparsity s
         \<and> curr_pruning_period s < pruning_periods f then
        (case py_mod (num_steps s - start_pruning_step f - 1) (pruning_period_duration f) of
           Inl err \<Rightarrow> Inl err
         | Inr r \<Rightarrow>
            if r = 0 then
              (case identify_redundant_groups f
                      (compute_importance_scores f sc (commit_redundant_idxes f s)) of
                 Inl err \<Rightarrow> Inl err
               | Inr s' \<Rightarrow> Inr (s'\<lparr> curr_pruning_period := curr_pruning_period s' + 1 \<rparr>))
            else Inr s)
      else Inr s)"

subsection \<open>Tensor operations\<close>

fun t_map :: "(real \<Rightarrow> real) \<Rightarrow> tensor \<Rightarrow> tensor" where
  "t_map h (Vec v) = Vec (map h v)"
| "t_map h (Mat m) = Mat (map (map h) m)"

text \<open>
  Elementwise operations. Their operands have one shape in the optimizer (a gradient and
  a moment buffer have the shape of their tensor); on other operands the model keeps
  the left one.
\<close>

fun t_map2 :: "(real \<Rightarrow> real \<Rightarrow> real) \<Rightarrow> tensor \<Rightarrow> tensor \<Rightarrow> tensor" where
  "t_map2 h (Vec a) (Vec b) = Vec (map2 h a b)"
| "t_map2 h (Mat a) (Mat b) = Mat (map2 (map2 h) a b)"
| "t_map2 h a b = a"

text \<open>\<open>p.add_(x, alpha=a)\<close>.\<close>

definition t_add_alpha :: "tensor \<Rightarrow> tensor \<Rightarrow> real \<Rightarrow> tensor" where
  "t_add_alpha p x a = t_map2 (\<lambda>u v. u + a * v) p x"

fun dim0 :: "tensor \<Rightarrow> nat" where
  "dim0 (Vec v) = length v"
| "dim0 (Mat m) = length m"

text \<open>\<open>p[mask] *= c\<close> with a boolean mask over the first axis.\<close>

fun scale_rows :: "bool list \<Rightarrow> real \<Rightarrow> tensor \<Rightarrow> error + tensor" where
  "scale_rows bmask c (Vec v) =
     (if length bmask = length v then Inr (Vec (map2 (\<lambda>b x. if b then x * c else x) bmask v))
      else Inl IndexError)"
| "scale_rows bmask c (Mat m) =
     (if length bmask = length m
      then Inr (Mat (map2 (\<lambda>b row. if b then map (\<lambda>x. x * c) row else row) bmask m))
      else Inl IndexError)"

text \<open>\<open>p[:, mask] *= c\<close>: the tensor needs a second axis, of the mask's length.\<close>

fun scale_cols :: "bool list \<Rightarrow> real \<Rightarrow> tensor \<Rightarrow> error + tensor" where
  "scale_cols bmask c (Vec v) = Inl IndexError"
| "scale_cols bmask c (Mat m) =
     (if list_all (\<lambda>row. length row = length bmask) m
      then Inr (Mat (map (\<lambda>row. map2 (\<lambda>b x. if b then x * c else x) bmask row) m))
      else Inl IndexError)"

text \<open>\<open>p[idxes] = 0.0\<close> and \<open>p[:, idxes] = 0.0\<close> with a list of indices.\<close>

fun zero_rows :: "nat list \<Rightarrow> tensor \<Rightarrow> error + tensor" where
  "zero_rows idxes (Vec v) =
     (if list_all (\<lambda>i. i < length v) idxes
      then Inr (Vec (map (\<lambda>k. if k \<in> set idxes then 0 else v ! k) [0..<length v]))
      else Inl IndexError)"
| "zero_rows idxes (Mat m) =
     (if list_all (\<lambda>i. i < length m) idxes
      then Inr (Mat (map (\<lambda>k. if k \<in> set idxes then map (\<lambda>_. 0) (m ! k) else m ! k)
                      [0..<length m]))
      else Inl IndexError)"

fun zero_cols :: "nat list \<Rightarrow> tensor \<Rightarrow> error + tensor" where
  "zero_cols idxes (Vec v) = Inl IndexError"
| "zero_cols idxes (Mat m) =
     (if list_all (\<lambda>row. list_all (\<lambda>i. i < length row) idxes) m
      then Inr (Mat (map (\<lambda>row. map (\<lambda>k. if k \<in> set idxes then 0 else row ! k)
                                  [0..<length row]) m))
      else Inl IndexError)"

subsection \<open>The gradient variant pass\<close>

record step_input =
  grads :: "string \<rightharpoonup> tensor"
  scores :: "string \<Rightarrow> nat \<Rightarrow> real list"

definition safe_guard :: real where
  "safe_guard = 1 / 10 ^ 8"

definition is_adam :: "lhspg_fixed \<Rightarrow> bool" where
  "is_adam f = (variant f = ''adam'' \<or> variant f = ''adamw'')"

text \<open>Lines 255-256: \<open>1.0 - momentum ** self.num_steps\<close>, for the adam variants only.\<close>

definition first_bias_correction :: "lhspg_fixed \<Rightarrow> int \<Rightarrow> real option" where
  "first_bias_correction f n =
     (if is_adam f then Some (1 - first_momentum f ^ nat n) else None)"

definition second_bias_correction :: "lhspg_fixed \<Rightarrow> int \<Rightarrow> real option" where
  "second_bias_correction f n =
     (if is_adam f then Some (1 - second_momentum f ^ nat n) else None)"

text \<open>
  The moment buffers are keyed by the strings
  \<open>grad_first_moment_buffer_group_{i}_param_{j}\<close>, that is by the pair \<open>(i, j)\<close>.
\<close>

definition get_first_momentum_grad ::
  "(nat \<times> nat \<rightharpoonup> tensor) \<Rightarrow> nat \<times> nat \<Rightarrow> real \<Rightarrow> real \<Rightarrow> tensor \<Rightarrow>
   (nat \<times> nat \<rightharpoonup> tensor) \<times> tensor" where
  "get_first_momentum_grad bufs name first_moment damp grad =
     (if 0 < first_moment then
        (case bufs name of
           None \<Rightarrow> (bufs(name \<mapsto> grad), grad)
         | Some buf \<Rightarrow>
            (let buf' = t_add_alpha (t_map (\<lambda>u. u * first_moment) buf) grad (1 - damp)
             in (bufs(name \<mapsto> buf'), buf')))
      else (bufs, grad))"

definition get_second_momentum_grad_square ::
  "(nat \<times> nat \<rightharpoonup> tensor) \<Rightarrow> nat \<times> nat \<Rightarrow> real \<Rightarrow> real \<Rightarrow> tensor \<Rightarrow>
   (nat \<times> nat \<rightharpoonup> tensor) \<times> tensor" where
  "get_second_momentum_grad_square bufs name second_moment damp grad =
     (if 0 < second_moment then
        (case bufs name of
           None \<Rightarrow> (bufs(name \<mapsto> t_map (\<lambda>u. u * u) grad), t_map (\<lambda>u. u * u) grad)
         | Some buf \<Rightarrow>
            (let buf' = t_add_alpha (t_map (\<lambda>u. u * second_moment) buf)
                          (t_map (\<lambda>u. u * u) grad) (1 - damp)
             in (bufs(name \<mapsto> buf'), buf')))
      else (bufs, t_map (\<lambda>u. u * u) grad))"

text \<open>
  Lines 259-278 for the tensor \<open>j\<close> of the group \<open>i\<close>. Division of a tensor by a float
  is torch's: it never raises; HOL's \<open>x / 0 = 0\<close> stands where torch gives inf or nan.
\<close>

definition grad_variant_param ::
  "lhspg_fixed \<Rightarrow> int \<Rightarrow> (string \<rightharpoonup> tensor) \<Rightarrow> nat \<Rightarrow> nat \<times> string \<Rightarrow> lhspg_store \<Rightarrow>
   lhspg_store" where
  "grad_variant_param f n gr i jp nu =
     (let j = fst jp; p_name = snd jp in
      case named_parameters nu p_name of
        None \<Rightarrow> nu
      | Some p \<Rightarrow>
     (case gr p_name of
        None \<Rightarrow> nu
      | Some grad \<Rightarrow>
         (let refined_grad_f =
                (if weight_decay f \<noteq> None \<and> variant f \<noteq> ''adamw''
                 then t_add_alpha grad p (the (weight_decay f)) else grad)
          in
          if \<not> is_adam f then
            (let r = (if 0 < first_momentum f \<or> 0 < dampening f
                      then get_first_momentum_grad (first_moment_grads nu) (i, j)
                             (first_momentum f) (dampening f) refined_grad_f
                      else (first_moment_grads nu, refined_grad_f))
             in nu\<lparr> first_moment_grads := fst r,
                    grad_variant := (grad_variant nu)(i := (grad_variant nu i)(p_name \<mapsto> snd r)) \<rparr>)
          else
            (let r1 = get_first_momentum_grad (first_moment_grads nu) (i, j)
                        (first_momentum f) (first_momentum f) refined_grad_f;
                 r2 = get_second_momentum_grad_square (second_moment_grads nu) (i, j)
                        (second_momentum f) (second_momentum f) refined_grad_f;
                 exp_avg_first_moment_grad =
                   t_map (\<lambda>u. u / the (first_bias_correction f n)) (snd r1);
                 exp_avg_second_moment_grad_sq =
                   t_map (\<lambda>u. u / the (second_bias_correction f n)) (snd r2);
                 denom = t_map (\<lambda>u. sqrt u + safe_guard) exp_avg_second_moment_grad_sq
             in nu\<lparr> first_moment_grads := fst r1,
                    second_moment_grads := fst r2,
                    grad_variant :=
                      (grad_variant nu)(i := (grad_variant nu i)
                         (p_name \<mapsto> t_map2 (\<lambda>u v. u / v) exp_avg_first_moment_grad denom)) \<rparr>))))"

definition grad_variant_group ::
  "lhspg_fixed \<Rightarrow> int \<Rightarrow> (string \<rightharpoonup> tensor) \<Rightarrow> nat \<times> param_group \<Rightarrow> lhspg_store \<Rightarrow>
   lhspg_store" where
  "grad_variant_group f n gr ig nu =
     fold (grad_variant_param f n gr (fst ig)) (enumerate 0 (p_names (snd ig)))
       (nu\<lparr> grad_variant := (grad_variant nu)(fst ig := Map.empty) \<rparr>)"

definition compute_grad_variant ::
  "lhspg_fixed \<Rightarrow> int \<Rightarrow> (string \<rightharpoonup> tensor) \<Rightarrow> lhspg_store \<Rightarrow> lhspg_store" where
  "compute_grad_variant f n gr nu =
     fold (grad_variant_group f n gr) (enumerate 0 (param_groups f)) nu"

subsection \<open>The update pass of \<open>step\<close>\<close>

text \<open>
  The decay ramp \<open>(duration - t - 1.0) / (duration - t)\<close> of lines 340-352; Python raises
  on a zero denominator.
\<close>

definition ramp_factor :: "int \<Rightarrow> int \<Rightarrow> error + real" where
  "ramp_factor duration t =
     (if duration - t = 0 then Inl ZeroDivisionError
      else Inr ((real_of_int duration - real_of_int t - 1) / (real_of_int duration - real_of_int t)))"

definition set_param :: "lhspg_store \<Rightarrow> string \<Rightarrow> tensor \<Rightarrow> lhspg_store" where
  "set_param nu name t = nu\<lparr> named_parameters := (named_parameters nu)(name \<mapsto> t) \<rparr>"

text \<open>Lines 316-318 (and 324-326, 345-347): decoupled weight decay, then the step.\<close>

definition ordinary_update :: "lhspg_fixed \<Rightarrow> tensor \<Rightarrow> tensor \<Rightarrow> tensor" where
  "ordinary_update f gv p =
     (let p1 = (if weight_decay f \<noteq> None \<and> variant f = ''adamw''
                then t_add_alpha p (t_map (\<lambda>u. the (weight_decay f) * u) p) (- lr f)
                else p)
      in t_add_alpha p1 gv (- lr f))"

text \<open>Lines 313-318: a tensor with no entry in \<open>grad_variant\<close> is skipped.\<close>

fun plain_update :: "lhspg_fixed \<Rightarrow> nat \<Rightarrow> string list \<Rightarrow> lhspg_store \<Rightarrow> lhspg_store" where
  "plain_update f i [] nu = nu"
| "plain_update f i (p_name # rest) nu =
     (case named_parameters nu p_name of
        None \<Rightarrow> plain_update f i rest nu
      | Some p \<Rightarrow>
         (case grad_variant nu i p_name of
            None \<Rightarrow> plain_update f i rest nu
          | Some gv \<Rightarrow> plain_update f i rest (set_param nu p_name (ordinary_update f gv p))))"

definition scale_rows_at :: "bool list \<Rightarrow> real \<Rightarrow> string \<Rightarrow> lhspg_store \<Rightarrow> error + lhspg_store" where
  "scale_rows_at bm c name nu =
     (case named_parameters nu name of
        None \<Rightarrow> Inr nu
      | Some x \<Rightarrow> (case scale_rows bm c x of Inl err \<Rightarrow> Inl err | Inr x' \<Rightarrow> Inr (set_param nu name x')))"

definition scale_cols_at :: "bool list \<Rightarrow> real \<Rightarrow> string \<Rightarrow> lhspg_store \<Rightarrow> error + lhspg_store" where
  "scale_cols_at bm c name nu =
     (case named_parameters nu name of
        None \<Rightarrow> Inr nu
      | Some x \<Rightarrow> (case scale_cols bm c x of Inl err \<Rightarrow> Inl err | Inr x' \<Rightarrow> Inr (set_param nu name x')))"

definition zero_rows_at :: "nat list \<Rightarrow> string \<Rightarrow> lhspg_store \<Rightarrow> error + lhspg_store" where
  "zero_rows_at idxes name nu =
     (case named_parameters nu name of
        None \<Rightarrow> Inr nu
      | Some x \<Rightarrow> (case zero_rows idxes x of Inl err \<Rightarrow> Inl err | Inr x' \<Rightarrow> Inr (set_param nu name x')))"

definition zero_cols_at :: "nat list \<Rightarrow> string \<Rightarrow> lhspg_store \<Rightarrow> error + lhspg_store" where
  "zero_cols_at idxes name nu =
     (case named_parameters nu name of
        None \<Rightarrow> Inr nu
      | Some x \<Rightarrow> (case zero_cols idxes x of Inl err \<Rightarrow> Inl err | Inr x' \<Rightarrow> Inr (set_param nu name x')))"

text \<open>
  Lines 324-343, the body of \<open>if 'lora_B' in p_name\<close>. The test
  \<open>if p_name not in group['grad_variant']: continue\<close> stands commented out in the source
  (lines 321-322), so the lookup of line 326 raises KeyError for a tensor without a
  gradient variant.
\<close>

definition lora_B_update ::
  "env \<Rightarrow> lhspg_fixed \<Rightarrow> lhspg_sched \<Rightarrow> int \<Rightarrow> nat \<Rightarrow> param_group \<Rightarrow> string \<Rightarrow>
   TensorTransform \<Rightarrow> tensor \<Rightarrow> lhspg_store \<Rightarrow> error + lhspg_store" where
  "lora_B_update e f s t i g p_name tr p nu =
     (case grad_variant nu i p_name of
        None \<Rightarrow> Inl (KeyError p_name)
      | Some gv \<Rightarrow>
     (let nu1 = set_param nu p_name (ordinary_update f gv p);
          original_weight_name = split_head ''lora_B'' p_name @ ''weight'';
          original_bias_name = split_head ''lora_B'' p_name @ ''bias''
      in
      case named_parameters nu1 original_weight_name of
        None \<Rightarrow> Inl (KeyError original_weight_name)
      | Some original_weight \<Rightarrow>
     (case active_redundant_bool s i of
        None \<Rightarrow> Inl (KeyError ''active_redundant_bool'')
      | Some gb \<Rightarrow>
     (let bm =
            (if tr = MULTIHEAD_HEADDIM
             then mask_transformation e gb REVERSE_MULTIHEAD_HEADDIM (num_groups g) (num_heads g)
             else if tr = MULTIHEAD_NUMHEAD
             then mask_transformation e gb REVERSE_MULTIHEAD_NUMHEAD (num_groups g) (head_dim g)
             else gb)
      in
      case ramp_factor (pruning_period_duration f) t of
        Inl err \<Rightarrow> Inl err
      | Inr c \<Rightarrow>
     (case scale_rows_at bm c p_name nu1 of
        Inl err \<Rightarrow> Inl err
      | Inr nu2 \<Rightarrow>
     (case scale_rows_at bm c original_weight_name nu2 of
        Inl err \<Rightarrow> Inl err
      | Inr nu3 \<Rightarrow> scale_rows_at bm c original_bias_name nu3))))))"

text \<open>Lines 348-352: the ramp on every tensor of an embedding group.\<close>

fun decay_loop ::
  "lhspg_fixed \<Rightarrow> lhspg_sched \<Rightarrow> int \<Rightarrow> nat \<Rightarrow> (string \<times> TensorTransform) list \<Rightarrow> lhspg_store \<Rightarrow>
   error + lhspg_store" where
  "decay_loop f s t i [] nu = Inr nu"
| "decay_loop f s t i ((decay_p_name, decay_p_transform) # rest) nu =
     (if named_parameters nu decay_p_name = None then decay_loop f s t i rest nu
      else if decay_p_transform = BASIC \<or> decay_p_transform = TRANSPOSE then
        (case active_redundant_bool s i of
           None \<Rightarrow> Inl (KeyError ''active_redundant_bool'')
         | Some gb \<Rightarrow>
        (case ramp_factor (pruning_period_duration f) t of
           Inl err \<Rightarrow> Inl err
         | Inr c \<Rightarrow>
        (case (if decay_p_transform = BASIC then scale_rows_at gb c decay_p_name nu
               else scale_cols_at gb c decay_p_name nu) of
           Inl err \<Rightarrow> Inl err
         | Inr nu' \<Rightarrow> decay_loop f s t i rest nu')))
      else decay_loop f s t i rest nu)"

definition lora_embedding_B_update ::
  "lhspg_fixed \<Rightarrow> lhspg_sched \<Rightarrow> int \<Rightarrow> nat \<Rightarrow> param_group \<Rightarrow> string \<Rightarrow> tensor \<Rightarrow> lhspg_store \<Rightarrow>
   error + lhspg_store" where
  "lora_embedding_B_update f s t i g p_name p nu =
     (case grad_variant nu i p_name of
        None \<Rightarrow> Inl (KeyError p_name)
      | Some gv \<Rightarrow>
         decay_loop f s t i (zip (p_names g) (p_transform g))
           (set_param nu p_name (ordinary_update f gv p)))"

text \<open>
  Lines 320-354, the branch of a prunable group with active redundant indices. The
  \<open>break\<close> of line 354 ends the loop after the first embedding factor.
\<close>

fun redundant_update ::
  "env \<Rightarrow> lhspg_fixed \<Rightarrow> lhspg_sched \<Rightarrow> int \<Rightarrow> nat \<Rightarrow> param_group \<Rightarrow>
   (string \<times> TensorTransform) list \<Rightarrow> lhspg_store \<Rightarrow> error + lhspg_store" where
  "redundant_update e f s t i g [] nu = Inr nu"
| "redundant_update e f s t i g ((p_name, tr) # rest) nu =
     (case named_parameters nu p_name of
        None \<Rightarrow> redundant_update e f s t i g rest nu
      | Some p \<Rightarrow>
     (case (if str_contains ''lora_B'' p_name then lora_B_update e f s t i g p_name tr p nu
            else Inr nu) of
        Inl err \<Rightarrow> Inl err
      | Inr nu1 \<Rightarrow>
         if str_contains ''lora_embedding_B'' p_name then
           (case named_parameters nu1 p_name of
              None \<Rightarrow> Inr nu1
            | Some p1 \<Rightarrow> lora_embedding_B_update f s t i g p_name p1 nu1)
         else redundant_update e f s t i g rest nu1))"

text \<open>Lines 363-386: hard zeroing through a low-rank factor \<open>lora_B\<close>.\<close>

definition lora_B_zero ::
  "lhspg_sched \<Rightarrow> param_group \<Rightarrow> string \<Rightarrow> TensorTransform \<Rightarrow> tensor \<Rightarrow> lhspg_store \<Rightarrow>
   error + lhspg_store" where
  "lora_B_zero s g p_name tr p nu =
     (let original_weight_name = split_head ''lora_B'' p_name @ ''weight'';
          original_bias_name = split_head ''lora_B'' p_name @ ''bias'';
          pruned = pruned_idxes s (group_id g)
      in
      case named_parameters nu original_weight_name of
        None \<Rightarrow> Inl (KeyError original_weight_name)
      | Some original_weight \<Rightarrow>
         if tr = TRANSPOSE \<and> (case p of Mat m \<Rightarrow> True | Vec v \<Rightarrow> False) then
           (case zero_cols_at pruned p_name nu of
              Inl err \<Rightarrow> Inl err
            | Inr nu1 \<Rightarrow> zero_rows_at pruned original_weight_name nu1)
         else
           (let idxes =
                  (if tr = MULTIHEAD_HEADDIM
                   then concat (map (\<lambda>h. map (\<lambda>k. k + h * head_dim g) pruned) [0..<num_heads g])
                   else if tr = MULTIHEAD_NUMHEAD
                   then concat (map (\<lambda>k. map (\<lambda>h. h + k * head_dim g) [0..<head_dim g]) pruned)
                   else pruned)
            in
            case zero_rows_at idxes p_name nu of
              Inl err \<Rightarrow> Inl err
            | Inr nu1 \<Rightarrow>
           (case zero_rows_at idxes original_weight_name nu1 of
              Inl err \<Rightarrow> Inl err
            | Inr nu2 \<Rightarrow> zero_rows_at idxes original_bias_name nu2)))"

text \<open>Lines 388-392: hard zeroing through an embedding factor.\<close>

definition lora_embedding_B_zero ::
  "lhspg_sched \<Rightarrow> param_group \<Rightarrow> string \<Rightarrow> lhspg_store \<Rightarrow> error + lhspg_store" where
  "lora_embedding_B_zero s g p_name nu =
     (let original_weight_name = split_head ''lora_embedding_B'' p_name @ ''weight'';
          pruned = pruned_idxes s (group_id g)
      in
      case named_parameters nu original_weight_name of
        None \<Rightarrow> Inl (KeyError original_weight_name)
      | Some original_weight \<Rightarrow>
         (case zero_rows_at pruned p_name nu of
            Inl err \<Rightarrow> Inl err
          | Inr nu1 \<Rightarrow> zero_cols_at pruned original_weight_name nu1))"

fun hard_zero ::
  "lhspg_sched \<Rightarrow> param_group \<Rightarrow> (string \<times> TensorTransform) list \<Rightarrow> lhspg_store \<Rightarrow>
   error + lhspg_store" where
  "hard_zero s g [] nu = Inr nu"
| "hard_zero s g ((p_name, tr) # rest) nu =
     (case named_parameters nu p_name of
        None \<Rightarrow> hard_zero s g rest nu
      | Some p \<Rightarrow>
     (case (if str_contains ''lora_B'' p_name then lora_B_zero s g p_name tr p nu else Inr nu) of
        Inl err \<Rightarrow> Inl err
      | Inr nu1 \<Rightarrow>
     (case (if str_contains ''lora_embedding_B'' p_name
            then lora_embedding_B_zero s g p_name nu1 else Inr nu1) of
        Inl err \<Rightarrow> Inl err
      | Inr nu2 \<Rightarrow> hard_zero s g rest nu2)))"

text \<open>Lines 312-386 for the group \<open>g\<close> at position \<open>i\<close>.\<close>

definition update_group ::
  "env \<Rightarrow> lhspg_fixed \<Rightarrow> lhspg_sched \<Rightarrow> int \<Rightarrow> nat \<times> param_group \<Rightarrow> lhspg_store \<Rightarrow>
   error + lhspg_store" where
  "update_group e f s t ig nu =
     (let i = fst ig; g = snd ig in
      case (if \<not> is_prunable g \<or> length (active_redundant_idxes s (group_id g)) = 0
            then Inr (plain_update f i (p_names g) nu)
            else redundant_update e f s t i g (zip (p_names g) (p_transform g)) nu) of
        Inl err \<Rightarrow> Inl err
      | Inr nu1 \<Rightarrow>
         if 0 < length (pruned_idxes s (group_id g))
         then hard_zero s g (zip (p_names g) (p_transform g)) nu1
         else Inr nu1)"

fun update_pass ::
  "env \<Rightarrow> lhspg_fixed \<Rightarrow> lhspg_sched \<Rightarrow> int \<Rightarrow> (nat \<times> param_group) list \<Rightarrow> lhspg_store \<Rightarrow>
   error + lhspg_store" where
  "update_pass e f s t [] nu = Inr nu"
| "update_pass e f s t (ig # rest) nu =
     (case update_group e f s t ig nu of
        Inl err \<Rightarrow> Inl err
      | Inr nu' \<Rightarrow> update_pass e f s t rest nu')"

subsection \<open>\<open>step\<close>\<close>

text \<open>Line 310: \<open>t = (self.num_steps - self.start_pruning_step) % self.pruning_period_duration\<close>.\<close>

definition step_t :: "lhspg_fixed \<Rightarrow> lhspg_sched \<Rightarrow> error + int" where
  "step_t f s = py_mod (num_steps s - start_pruning_step f) (pruning_period_duration f)"

definition step :: "env \<Rightarrow> step_input \<Rightarrow> lhspg \<Rightarrow> error + lhspg" where
  "step e inp st =
     (let f = fixed st;
          s0 = (sched st)\<lparr> num_steps := num_steps (sched st) + 1 \<rparr>;
          nu0 = compute_grad_variant f (num_steps s0) (grads inp) (store st)
      in
      case schedule f (scores inp) s0 of
        Inl err \<Rightarrow> Inl err
      | Inr s1 \<Rightarrow>
     (case step_t f s1 of
        Inl err \<Rightarrow> Inl err
      | Inr t \<Rightarrow>
     (case update_pass e f s1 t (enumerate 0 (param_groups f)) nu0 of
        Inl err \<Rightarrow> Inl err
      | Inr nu1 \<Rightarrow>
     (let s2 = (if start_pruning_step f \<le> num_steps s1 \<and> t = pruning_period_duration f - 1
                then commit_redundant_idxes f s1 else s1)
      in
      case compute_group_sparsity_param_norm e (named_parameters nu1) (param_groups f) 0 of
        Inl err \<Rightarrow> Inl err
      | Inr nz \<Rightarrow>
         Inr \<lparr> fixed = f, sched = s2\<lparr> curr_num_zero_groups := nz \<rparr>, store = nu1 \<rparr>))))"

text \<open>A run of the optimizer: \<open>step\<close> called once for each input, in order.\<close>

fun run :: "env \<Rightarrow> step_input list \<Rightarrow> lhspg \<Rightarrow> error + lhspg" where
  "run e [] st = Inr st"
| "run e (inp # inps) st =
     (case step e inp st of
        Inl err \<Rightarrow> Inl err
      | Inr st' \<Rightarrow> run e inps st')"

text \<open>The constructor, then \<open>step\<close> once for each input.\<close>

definition run_from_init :: "env \<Rightarrow> ctor_args \<Rightarrow> step_input list \<Rightarrow> error + lhspg" where
  "run_from_init e a inps = (case init e a of Inl err \<Rightarrow> Inl err | Inr st \<Rightarrow> run e inps st)"

subsection \<open>The selection as the specification words it\<close>

text \<open>
  The specification's selector (section 4.3): take the \<open>K\<close> lowest-scoring global indices,
  remove the indices already pruned, keep the first \<open>quota\<close> that remain, in ascending
  order of score.
\<close>

definition spec_select_top_indices :: "real list \<Rightarrow> nat list \<Rightarrow> int \<Rightarrow> error + nat list" where
  "spec_select_top_indices score pruned quota =
     (case topk_lowest score (int (length pruned) + quota) of
        Inl err \<Rightarrow> Inl err
      | Inr lowest \<Rightarrow> Inr (py_take quota (filter (\<lambda>x. x \<notin> set pruned) lowest)))"


subsection \<open>Notions used in the statements and proofs\<close>

text \<open>
  A group takes part in scoring and pruning when it is prunable and not auxiliary (the
  test of lines 176, 227 and 288). \<open>candidates\<close> is the value line 229 gives
  \<open>active_redundant_idxes\<close>, \<open>new_active\<close> the value it has after lines 231-247.
\<close>

definition eligible :: "param_group \<Rightarrow> bool" where
  "eligible g = (is_prunable g \<and> \<not> is_auxiliary g)"

definition candidates :: "nat list \<Rightarrow> nat \<Rightarrow> nat \<Rightarrow> nat list" where
  "candidates tops start n = map (\<lambda>x. x - start) (intersect1d tops [start..<start + n])"

definition new_active :: "int \<Rightarrow> nat \<Rightarrow> nat \<Rightarrow> nat \<Rightarrow> nat list \<Rightarrow> nat list" where
  "new_active d n imp_len pr_len cand =
     (if int n < d then []
      else
        (let trial = int imp_len - int (length cand) in
         if trial mod d \<noteq> 0 \<or> trial \<le> 0
         then py_take (int n - int pr_len - refined_num_important_groups d (int n) trial) cand
         else cand))"

text \<open>The three index dicts of the optimizer, and the three lists of one group id.\<close>

definition triple :: "lhspg_sched \<Rightarrow> (nat \<Rightarrow> nat list) \<times> (nat \<Rightarrow> nat list) \<times> (nat \<Rightarrow> nat list)" where
  "triple s = (important_idxes s, pruned_idxes s, active_redundant_idxes s)"

text \<open>The members of every cluster are positions of \<open>param_groups\<close>.\<close>

definition members_ok :: "lhspg_fixed \<Rightarrow> bool" where
  "members_ok f = list_all (\<lambda>c. list_all (\<lambda>p. p < length (param_groups f)) (members c)) (clusters f)"

text \<open>
  Invariants on the index dicts: a group as large as the divisor \<open>d\<close> keeps all its
  indices important (\<open>never_pruned\<close>); a group below the divisor has no pruned and no
  active redundant index, and no pruned list is shorter than it was in \<open>pr0\<close>
  (\<open>pruned_grows\<close>).
\<close>

definition never_pruned :: "int \<Rightarrow> param_group list \<Rightarrow>
    (nat \<Rightarrow> nat list) \<times> (nat \<Rightarrow> nat list) \<times> (nat \<Rightarrow> nat list) \<Rightarrow> bool" where
  "never_pruned d gs T =
     (\<forall>g\<in>set gs. int (num_groups g) = d \<longrightarrow>
        fst T (group_id g) = [0..<num_groups g]
        \<and> fst (snd T) (group_id g) = [] \<and> snd (snd T) (group_id g) = [])"

text \<open>The number of permanently pruned groups, summed over the parameter groups.\<close>

definition total_pruned :: "lhspg \<Rightarrow> nat" where
  "total_pruned st =
     sum_list (map (\<lambda>g. length (pruned_idxes (sched st) (group_id g))) (param_groups (fixed st)))"

definition pruned_grows :: "int \<Rightarrow> param_group list \<Rightarrow> (nat \<Rightarrow> nat list) \<Rightarrow>
    (nat \<Rightarrow> nat list) \<times> (nat \<Rightarrow> nat list) \<times> (nat \<Rightarrow> nat list) \<Rightarrow> bool" where
  "pruned_grows d gs pr0 T =
     ((\<forall>g\<in>set gs. int (num_groups g) < d \<longrightarrow>
         fst (snd T) (group_id g) = [] \<and> snd (snd T) (group_id g) = [])
      \<and> (\<forall>i. length (pr0 i) \<le> length (fst (snd T) i)))"

text \<open>
  The three index lists of a group with \<open>n\<close> groups partition \<open>{0, ..., n - 1}\<close>; the
  survivors are a positive multiple of the divisor; and both together with the rule for
  groups below the divisor, as the invariant of one group.
\<close>

definition index_partition :: "nat \<Rightarrow> nat list \<Rightarrow> nat list \<Rightarrow> nat list \<Rightarrow> bool" where
  "index_partition n imp pr act =
     (set imp \<union> set pr \<union> set act = {0..<n}
      \<and> set imp \<inter> set pr = {} \<and> set imp \<inter> set act = {} \<and> set pr \<inter> set act = {}
      \<and> distinct imp \<and> distinct pr \<and> distinct act)"

definition divisible_survivors :: "int \<Rightarrow> nat list \<Rightarrow> bool" where
  "divisible_survivors d imp = (0 < length imp \<and> d dvd int (length imp))"

definition group_ok :: "int \<Rightarrow> nat \<Rightarrow> nat list \<Rightarrow> nat list \<Rightarrow> nat list \<Rightarrow> bool" where
  "group_ok d n imp pr act =
     (index_partition n imp pr act
      \<and> (int n < d \<longrightarrow> pr = [] \<and> act = [])
      \<and> (1 \<le> d \<and> d \<le> int n \<and> (pr \<noteq> [] \<or> act \<noteq> []) \<longrightarrow> divisible_survivors d imp))"

text \<open>
  The global start index that lines 206-208 give the group at position \<open>p\<close> within the
  cluster whose members are \<open>ms\<close>: it depends on the members and their sizes only.
\<close>

definition cluster_start :: "param_group list \<Rightarrow> nat list \<Rightarrow> nat \<Rightarrow> nat" where
  "cluster_start gs ms p = snd (scores_loop (\<lambda>_. []) gs ms 0 [] (\<lambda>_. 0)) p"




definition groups_ok :: "lhspg_fixed \<Rightarrow> lhspg_sched \<Rightarrow> bool" where
  "groups_ok f s =
     (\<forall>g\<in>set (param_groups f).
        group_ok (group_divisible f) (num_groups g) (important_idxes s (group_id g))
          (pruned_idxes s (group_id g)) (active_redundant_idxes s (group_id g)))"

definition recorded :: "lhspg_fixed \<Rightarrow> lhspg_sched \<Rightarrow> bool" where
  "recorded f s =
     (\<forall>c\<in>set (clusters f). \<forall>p\<in>set (members c). eligible (param_groups f ! p) \<longrightarrow>
        (\<forall>k\<in>set (pruned_idxes s (group_id (param_groups f ! p)))
              \<union> set (active_redundant_idxes s (group_id (param_groups f ! p))).
           cluster_start (param_groups f) (members c) p + k
             \<in> set (pruned_group_idx_by_cluster s (cluster_name c))))"



subsection \<open>Concrete inputs\<close>

text \<open>
  An environment for concrete runs: defaults for the variant \<open>sgd\<close>, and transformations
  that take a tensor (a mask) as it is, one row per group.
\<close>

definition example_env :: env where
  "example_env =
     \<lparr> DEFAULT_OPT_PARAMS =
         [''sgd'' \<mapsto> \<lparr> default_first_momentum = 0, default_second_momentum = 0,
                         default_dampening = 0, default_weight_decay = 0 \<rparr>],
       tensor_transformation =
         (\<lambda>x tr n h. case x of Vec v \<Rightarrow> map (\<lambda>u. [u]) v | Mat m \<Rightarrow> m),
       mask_transformation = (\<lambda>bm tr n h. bm) \<rparr>"

text \<open>A low-rank pair on a layer \<open>fc\<close> with four output channels.\<close>

definition fc_group :: param_group where
  "fc_group =
     \<lparr> group_id = 0, p_names = [''fc.lora_B'', ''fc.weight''],
       p_transform = [BASIC, BASIC], num_groups = 4,
       is_prunable = True, is_auxiliary = False, num_heads = 1, head_dim = 1 \<rparr>"

definition fc_tensors :: "string \<rightharpoonup> tensor" where
  "fc_tensors =
     [''fc.lora_B'' \<mapsto> Mat [[1], [1], [1], [1]], ''fc.weight'' \<mapsto> Mat [[1], [1], [1], [1]]]"

definition fc_args :: "sparsity_target \<Rightarrow> int \<Rightarrow> int \<Rightarrow> int \<Rightarrow> ctor_args" where
  "fc_args target steps periods divisible =
     \<lparr> arg_params = [fc_group], arg_tensors = fc_tensors,
       arg_variant = ''sgd'', arg_lr = 1 / 10,
       arg_first_momentum = None, arg_second_momentum = None,
       arg_dampening = None, arg_weight_decay = None,
       arg_target_group_sparsity = target,
       arg_start_pruning_step = 0, arg_pruning_steps = steps,
       arg_pruning_periods = periods, arg_group_divisible = divisible \<rparr>"

text \<open>The same layer under the variant \<open>adam\<close>, pruning not yet started.\<close>

definition adam_args :: ctor_args where
  "adam_args =
     (fc_args (PerCluster [(''fc'', 1 / 2)]) 3 1 1)
       \<lparr> arg_variant := ''adam'', arg_first_momentum := Some (9 / 10),
         arg_second_momentum := Some (999 / 1000), arg_dampening := Some 0,
         arg_weight_decay := Some 0, arg_start_pruning_step := 5 \<rparr>"

definition adam_input :: step_input where
  "adam_input =
     \<lparr> grads = [''fc.lora_B'' \<mapsto> Mat [[1], [2], [0], [1]]], scores = (\<lambda>c p. []) \<rparr>"

text \<open>A step in which no tensor has a gradient; the scores rank the channels 3, 2, 1, 0.\<close>

definition no_grad_input :: step_input where
  "no_grad_input = \<lparr> grads = Map.empty, scores = (\<lambda>c p. [4, 3, 2, 1]) \<rparr>"

text \<open>
  Two steps with gradients for the factor \<open>fc.lora_B\<close>. The scores of the first rank
  channel 0 lowest; in the second, channel 0 (pruned by then) scores highest and the
  channels 3, 2, 1 follow from the lowest score up.
\<close>

definition round1_input :: step_input where
  "round1_input =
     \<lparr> grads = [''fc.lora_B'' \<mapsto> Mat [[1], [1], [1], [1]]],
       scores = (\<lambda>c p. [1, 2, 3, 4]) \<rparr>"

definition round2_input :: step_input where
  "round2_input =
     \<lparr> grads = [''fc.lora_B'' \<mapsto> Mat [[1], [1], [1], [1]]],
       scores = (\<lambda>c p. [10, 3, 2, 1]) \<rparr>"


text \<open>
  A step for a group in both clusters: line 200 rescales the group's scores in place
  once for each cluster, here by the factor 1/2, so the second cluster sees the scores
  of the first halved.
\<close>

definition two_cluster_input :: step_input where
  "two_cluster_input =
     \<lparr> grads = [''fc.lora_B'' \<mapsto> Mat [[1], [1], [1], [1]]],
       scores = (\<lambda>c p. if c = ''fc'' then [1, 2, 3, 4] else [1 / 2, 1, 3 / 2, 2]) \<rparr>"

lemmas init_defs =
  init_def py_floordiv_def resolve_def sparsity_dict_def make_cluster_def cluster_members_def
  in_cluster_def sum_num_groups_def num_zero_groups_def row_norms_sq_def add_norms_def
  init_sched_def py_int_def Let_def upto_rec1 upt_conv_Cons

lemmas example_defs =
  example_env_def fc_group_def fc_tensors_def fc_args_def adam_args_def adam_input_def
  no_grad_input_def round1_input_def round2_input_def two_cluster_input_def

lemmas sched_defs =
  schedule_def reach_target_group_sparsity_def py_mod_def commit_redundant_idxes_def
  compute_importance_scores_def identify_redundant_groups_def identify_cluster_def
  select_top_indices_def topk_lowest_def setdiff1d_def intersect1d_def py_take_def
  identify_group_def finish_group_def refined_num_important_groups_def

lemmas update_defs =
  compute_grad_variant_def grad_variant_group_def grad_variant_param_def
  update_group_def lora_B_update_def lora_embedding_B_update_def ramp_factor_def
  set_param_def ordinary_update_def scale_rows_at_def scale_cols_at_def zero_rows_at_def
  zero_cols_at_def lora_B_zero_def lora_embedding_B_zero_def t_add_alpha_def
  is_adam_def first_bias_correction_def second_bias_correction_def
  get_first_momentum_grad_def get_second_momentum_grad_square_def

lemmas step_defs = step_def step_t_def run_from_init_def enumerate_eq_zip

section \<open>Properties\<close>

subsection \<open>The constructor\<close>

lemma add_norms_error: "add_norms acc v = Inl err \<Longrightarrow> err = RuntimeError"
  by (auto simp: add_norms_def split: if_splits)

lemma norm_group_loop_error:
  "norm_group_loop e ps g xs acc = Inl err \<Longrightarrow> err = RuntimeError"
proof (induction xs arbitrary: acc)
  case Nil
  then show ?case by simp
next
  case (Cons x xs)
  obtain p_name tr where x: "x = (p_name, tr)" by (cases x)
  from Cons.prems show ?case
    unfolding x
    by (auto simp: Let_def split: if_splits option.splits sum.splits
             dest: Cons.IH add_norms_error)
qed

lemma num_zero_groups_error:
  "num_zero_groups e ps g = Inl err \<Longrightarrow> err = RuntimeError \<or> err = TypeError"
  by (auto simp: num_zero_groups_def split: sum.splits option.splits
           dest: norm_group_loop_error)

lemma compute_group_sparsity_param_norm_error:
  "compute_group_sparsity_param_norm e ps gs n = Inl err \<Longrightarrow>
   err = RuntimeError \<or> err = TypeError"
proof (induction gs arbitrary: n)
  case Nil
  then show ?case by simp
next
  case (Cons g gs)
  then show ?case
    by (auto split: if_splits sum.splits dest: num_zero_groups_error)
qed

lemma resolve_error: "resolve e v given field = Inl err \<Longrightarrow> err = KeyError v"
  by (auto simp: resolve_def split: option.splits)

text \<open>
  C10. A constructor call with \<open>pruning_periods \<le> 0\<close>: the period count becomes
  \<open>max(1, pruning_periods) = 1\<close>, the division \<open>pruning_steps // pruning_periods\<close> does
  not raise and gives \<open>pruning_steps\<close>; the constructor never fails with
  ZeroDivisionError, and when it returns, the stored period count is 1 (so at least 1)
  and the stored period length is \<open>pruning_steps\<close>.
\<close>

theorem init_pruning_periods_at_least_one:
  assumes "arg_pruning_periods a \<le> 0"
  shows "py_floordiv (arg_pruning_steps a) (max 1 (arg_pruning_periods a))
           = Inr (arg_pruning_steps a)
         \<and> (case init e a of
              Inl err \<Rightarrow> err \<noteq> ZeroDivisionError
            | Inr st \<Rightarrow>
                pruning_periods (fixed st) = 1
                \<and> 1 \<le> pruning_periods (fixed st)
                \<and> pruning_period_duration (fixed st) = arg_pruning_steps a)"
proof -
  have m: "max 1 (arg_pruning_periods a) = 1"
    using assms by simp
  have d: "py_floordiv (arg_pruning_steps a) (max 1 (arg_pruning_periods a))
             = Inr (arg_pruning_steps a)"
    by (simp add: m py_floordiv_def)
  have "err \<noteq> ZeroDivisionError" if "init e a = Inl err" for err
    using that
    by (auto simp: init_def Let_def d split: if_splits sum.splits
             dest: resolve_error compute_group_sparsity_param_norm_error)
  moreover have "pruning_periods (fixed st) = 1
                 \<and> pruning_period_duration (fixed st) = arg_pruning_steps a"
    if "init e a = Inr st" for st
    using that m
    by (auto simp: init_def Let_def py_floordiv_def split: if_splits sum.splits)
  ultimately show ?thesis
    using d by (auto split: sum.splits)
qed

theorem init_pruning_periods_at_least_one_witness:
  "arg_pruning_periods (fc_args (PerCluster [(''fc'', 1 / 2)]) 3 (- 2) 1) \<le> 0
   \<and> (case init example_env (fc_args (PerCluster [(''fc'', 1 / 2)]) 3 (- 2) 1) of
        Inl err \<Rightarrow> False
      | Inr st \<Rightarrow>
          pruning_periods (fixed st) = 1 \<and> pruning_period_duration (fixed st) = 3)"
  using init_pruning_periods_at_least_one
          [of "fc_args (PerCluster [(''fc'', 1 / 2)]) 3 (- 2) 1" example_env]
  by (simp add: init_defs example_defs)

text \<open>
  C1. The constructor called with the scalar target 0.5 and one prunable group whose
  tensors are named \<open>fc.lora_B\<close> and \<open>fc.weight\<close>: the scalar becomes the dict
  \<open>{'overall': 0.5}\<close>, and lines 80-86 then keep the groups one of whose tensor names
  contains the string \<open>overall\<close>. The group is not in the cluster: the cluster is empty,
  the total group count is 0 and so is the target number of redundant groups.
\<close>

theorem scalar_target_leaves_overall_cluster_empty:
  "map_sum id
     (\<lambda>st. (map cluster_name (clusters (fixed st)), map members (clusters (fixed st)),
            total_num_groups (fixed st), target_num_redundant_groups (sched st)))
     (init example_env (fc_args (Scalar (1 / 2)) 4 2 1))
   = Inr ([''overall''], [[]], 0, 0)"
  by (simp add: init_defs example_defs)

subsection \<open>The gradient variant pass\<close>

lemma set_param_grad_variant [simp]: "grad_variant (set_param nu name x) = grad_variant nu"
  by (simp add: set_param_def)
















lemma commit_loop_num_steps [simp]: "num_steps (commit_loop gs s) = num_steps s"
  by (induction gs arbitrary: s) (auto simp: Let_def)

lemma scores_clusters_num_steps [simp]: "num_steps (scores_clusters sc gs cs s) = num_steps s"
  by (induction cs arbitrary: s) (auto simp: Let_def)

lemma finish_group_num_steps [simp]: "num_steps (finish_group g p s) = num_steps s"
  by (simp add: finish_group_def Let_def)









subsection \<open>The update pass\<close>

text \<open>
  The two branches of the update pass on a tensor without a gradient variant: the plain
  branch leaves the tensor as it is, the branch for active redundant groups raises.
\<close>

lemma plain_update_skips_missing_gradient:
  assumes "grad_variant nu i p_name = None"
  shows "named_parameters (plain_update f i names nu) p_name = named_parameters nu p_name"
  using assms
proof (induction names arbitrary: nu)
  case Nil
  then show ?case by simp
next
  case (Cons q names)
  show ?case
  proof (cases "named_parameters nu q")
    case None
    then show ?thesis
      using Cons by simp
  next
    case (Some p)
    show ?thesis
    proof (cases "grad_variant nu i q")
      case None
      then show ?thesis
        using Cons Some by simp
    next
      case gv: (Some v)
      then have ne: "q \<noteq> p_name"
        using Cons.prems by auto
      have "grad_variant (set_param nu q (ordinary_update f v p)) i p_name = None"
        using Cons.prems by simp
      from Cons.IH [OF this] show ?thesis
        using Some gv ne by (simp add: set_param_def)
    qed
  qed
qed

lemma lora_B_update_missing_gradient:
  assumes "grad_variant nu i p_name = None"
  shows "lora_B_update e f s t i g p_name tr p nu = Inl (KeyError p_name)"
  using assms by (simp add: lora_B_update_def)






subsection \<open>The selection\<close>

text \<open>The selection of lines 220-223 is always in ascending order of index.\<close>

lemma select_top_indices_sorted:
  assumes "select_top_indices score pruned quota = Inr tops"
  shows "sorted tops"
proof -
  from assms obtain lowest where "tops = py_take quota (setdiff1d lowest pruned)"
    by (auto simp: select_top_indices_def Let_def split: sum.splits)
  moreover have "sorted (setdiff1d lowest pruned)"
    by (simp add: setdiff1d_def)
  ultimately show ?thesis
    by (simp add: py_take_def sorted_wrt_take)
qed

text \<open>
  When no more than \<open>quota\<close> of the \<open>K\<close> lowest-scoring indices are unpruned, the
  selection of the code and the selection worded by the specification are the same set.
\<close>

lemma topk_lowest_distinct:
  assumes "topk_lowest score k = Inr lowest"
  shows "distinct lowest"
proof -
  from assms have "lowest = take (nat k) (sort_key (\<lambda>i. score ! i) [0..<length score])"
    by (auto simp: topk_lowest_def split: if_splits)
  then show ?thesis
    by simp
qed

lemma select_agrees_without_surplus:
  assumes low: "topk_lowest score (int (length pruned) + quota) = Inr lowest"
    and q: "0 \<le> quota"
    and few: "int (length (filter (\<lambda>x. x \<notin> set pruned) lowest)) \<le> quota"
  shows "\<exists>tops tops'. select_top_indices score pruned quota = Inr tops
           \<and> spec_select_top_indices score pruned quota = Inr tops'
           \<and> set tops = set tops'"
proof -
  let ?rest = "filter (\<lambda>x. x \<notin> set pruned) lowest"
  have d: "distinct ?rest"
    using topk_lowest_distinct [OF low] by simp
  have "length (setdiff1d lowest pruned) = length ?rest"
    using d by (simp add: setdiff1d_def distinct_remdups_id)
  then have a: "py_take quota (setdiff1d lowest pruned) = setdiff1d lowest pruned"
    using q few by (simp add: py_take_def)
  have b: "py_take quota ?rest = ?rest"
    using q few by (simp add: py_take_def)
  have "set (setdiff1d lowest pruned) = set ?rest"
    by (simp add: setdiff1d_def)
  then show ?thesis
    using low a b by (simp add: select_top_indices_def spec_select_top_indices_def Let_def)
qed


subsection \<open>The effect of a selection round and of a commit on the index lists\<close>

lemma candidates_props:
  "distinct (candidates tops start n)"
  "set (candidates tops start n) = {k. k < n \<and> start + k \<in> set tops}"
proof -
  let ?xs = "intersect1d tops [start..<start + n]"
  have d: "distinct ?xs" and s: "set ?xs = set tops \<inter> {start..<start + n}"
    by (auto simp: intersect1d_def)
  have "inj_on (\<lambda>x. x - start) (set ?xs)"
    by (auto simp: s inj_on_def)
  then show "distinct (candidates tops start n)"
    using d by (simp add: candidates_def distinct_map)
  show "set (candidates tops start n) = {k. k < n \<and> start + k \<in> set tops}"
  proof (intro set_eqI iffI)
    fix k assume "k \<in> set (candidates tops start n)"
    then obtain x where "x \<in> set tops" "start \<le> x" "x < start + n" "k = x - start"
      by (auto simp: candidates_def s)
    then show "k \<in> {k. k < n \<and> start + k \<in> set tops}" by auto
  next
    fix k assume "k \<in> {k. k < n \<and> start + k \<in> set tops}"
    then have "start + k \<in> set ?xs" by (auto simp: s)
    then have "(\<lambda>x. x - start) (start + k) \<in> (\<lambda>x. x - start) ` set ?xs"
      by (rule imageI)
    then show "k \<in> set (candidates tops start n)"
      by (simp add: candidates_def)
  qed
qed



lemma identify_group_effect:
  assumes "identify_group d g p tops s = Inr s'"
  shows "active_redundant_idxes s' =
           (active_redundant_idxes s)(group_id g :=
              new_active d (num_groups g) (length (important_idxes s (group_id g)))
                (length (pruned_idxes s (group_id g)))
                (candidates tops (global_start_idx s p) (num_groups g)))"
    and "pruned_idxes s' =
           (pruned_idxes s)(group_id g :=
              (if int (num_groups g) < d then [] else pruned_idxes s (group_id g)))"
    and "important_idxes s' =
           (important_idxes s)(group_id g :=
              filter (\<lambda>k. k \<notin> set (active_redundant_idxes s' (group_id g))
                         \<and> k \<notin> set (pruned_idxes s' (group_id g)))
                (important_idxes s (group_id g)))"
    and "pruned_group_idx_by_cluster s' = pruned_group_idx_by_cluster s"
    and "global_start_idx s' = global_start_idx s"
    and "cluster_importance_scores s' = cluster_importance_scores s"
    and "curr_pruning_period s' = curr_pruning_period s"
    and "int (num_groups g) < d \<or> d \<noteq> 0"
  using assms
  by (auto simp: identify_group_def finish_group_def new_active_def candidates_def Let_def
                 py_mod_def
           split: if_splits sum.splits)

lemma commit_loop_frame [simp]:
  "pruned_group_idx_by_cluster (commit_loop gs s) = pruned_group_idx_by_cluster s"
  "global_start_idx (commit_loop gs s) = global_start_idx s"
  "cluster_importance_scores (commit_loop gs s) = cluster_importance_scores s"
  "curr_pruning_period (commit_loop gs s) = curr_pruning_period s"
  "target_num_redundant_groups (commit_loop gs s) = target_num_redundant_groups s"
  "curr_num_zero_groups (commit_loop gs s) = curr_num_zero_groups s"
  by (induction gs arbitrary: s; simp add: Let_def)+

lemma scores_clusters_frame [simp]:
  "important_idxes (scores_clusters sc gs cs s) = important_idxes s"
  "pruned_idxes (scores_clusters sc gs cs s) = pruned_idxes s"
  "active_redundant_idxes (scores_clusters sc gs cs s) = active_redundant_idxes s"
  "pruned_group_idx_by_cluster (scores_clusters sc gs cs s) = pruned_group_idx_by_cluster s"
  "curr_pruning_period (scores_clusters sc gs cs s) = curr_pruning_period s"
  "target_num_redundant_groups (scores_clusters sc gs cs s) = target_num_redundant_groups s"
  "curr_num_zero_groups (scores_clusters sc gs cs s) = curr_num_zero_groups s"
  by (induction cs arbitrary: s; simp add: Let_def)+

text \<open>The effect of one iteration of the commit loop, for distinct group ids.\<close>

lemma commit_loop_effect:
  assumes "distinct (map group_id gs)"
  shows "pruned_idxes (commit_loop gs s) i =
           (if \<exists>g\<in>set gs. group_id g = i \<and> eligible g
            then pruned_idxes s i @ active_redundant_idxes s i else pruned_idxes s i)"
    and "active_redundant_idxes (commit_loop gs s) i =
           (if \<exists>g\<in>set gs. group_id g = i \<and> eligible g
            then [] else active_redundant_idxes s i)"
    and "g \<in> set gs \<Longrightarrow> group_id g = i \<Longrightarrow> eligible g \<Longrightarrow>
         important_idxes (commit_loop gs s) i =
           filter (\<lambda>k. k \<notin> set (pruned_idxes s i @ active_redundant_idxes s i))
             [0..<num_groups g]"
    and "\<not> (\<exists>g\<in>set gs. group_id g = i \<and> eligible g) \<Longrightarrow>
         important_idxes (commit_loop gs s) i = important_idxes s i"
  using assms
proof (induction gs arbitrary: s g)
  case Nil
  {
    case 1 show ?case by simp
  next
    case 2 show ?case by simp
  next
    case 3 then show ?case by simp
  next
    case 4 show ?case by simp
  }
next
  case (Cons h gs)
  {
    case 1
    then have d: "distinct (map group_id gs)" and nh: "\<forall>g'\<in>set gs. group_id g' \<noteq> group_id h"
      by (auto simp: image_iff)
    show ?case
      using Cons.IH(1) [OF d] nh by (auto simp: eligible_def Let_def)
  next
    case 2
    then have d: "distinct (map group_id gs)" and nh: "\<forall>g'\<in>set gs. group_id g' \<noteq> group_id h"
      by (auto simp: image_iff)
    show ?case
      using Cons.IH(2) [OF d] nh by (auto simp: eligible_def Let_def)
  next
    case 3
    then have d: "distinct (map group_id gs)" and nh: "\<forall>g'\<in>set gs. group_id g' \<noteq> group_id h"
      by (auto simp: image_iff)
    show ?case
    proof (cases "g = h")
      case True
      then have "\<not> (\<exists>g'\<in>set gs. group_id g' = i \<and> eligible g')"
        using nh 3 by auto
      then show ?thesis
        using Cons.IH(4) [OF _ d] True 3 by (auto simp: eligible_def Let_def)
    next
      case False
      then have gin: "g \<in> set gs" using 3 by auto
      then have "group_id h \<noteq> i" using nh 3 by auto
      then show ?thesis
        using Cons.IH(3) [OF gin _ _ d] 3 by (auto simp: eligible_def Let_def)
    qed
  next
    case 4
    then have d: "distinct (map group_id gs)" and nh: "\<forall>g'\<in>set gs. group_id g' \<noteq> group_id h"
      by (auto simp: image_iff)
    show ?case
      using Cons.IH(4) [OF _ d] 4 by (auto simp: eligible_def Let_def)
  }
qed

subsection \<open>Invariants of the index lists that every commit and every group's selection keep\<close>

lemma triple_frame [simp]:
  "triple (s\<lparr> pruned_group_idx_by_cluster := x \<rparr>) = triple s"
  "triple (s\<lparr> curr_pruning_period := y \<rparr>) = triple s"
  "triple (s\<lparr> num_steps := z \<rparr>) = triple s"
  "triple (s\<lparr> curr_num_zero_groups := w \<rparr>) = triple s"
  "triple (s\<lparr> cluster_importance_scores := v \<rparr>) = triple s"
  "triple (scores_clusters sc gs cs s) = triple s"
  by (simp_all add: triple_def)

lemma identify_groups_preserves:
  assumes "identify_groups f ps tops s = Inr s'"
    and "list_all (\<lambda>p. p < length (param_groups f)) ps"
    and "Q (triple s)"
    and "\<And>p tops s s'. p < length (param_groups f) \<Longrightarrow> eligible (param_groups f ! p) \<Longrightarrow>
           Q (triple s) \<Longrightarrow>
           identify_group (group_divisible f) (param_groups f ! p) p tops s = Inr s' \<Longrightarrow>
           Q (triple s')"
  shows "Q (triple s')"
  using assms(1-3)
proof (induction ps arbitrary: s)
  case Nil
  then show ?case by simp
next
  case (Cons p ps)
  show ?case
  proof (cases "eligible (param_groups f ! p)")
    case True
    with Cons.prems(1) obtain s1 where
      s1: "identify_group (group_divisible f) (param_groups f ! p) p tops s = Inr s1"
      and rest: "identify_groups f ps tops s1 = Inr s'"
      by (auto simp: eligible_def Let_def split: sum.splits)
    have "Q (triple s1)"
      using assms(4) [OF _ True Cons.prems(3) s1] Cons.prems(2) by simp
    then show ?thesis
      using Cons.IH [OF rest] Cons.prems(2) by simp
  next
    case False
    with Cons.prems(1) have "identify_groups f ps tops s = Inr s'"
      by (auto simp: eligible_def Let_def)
    then show ?thesis
      using Cons.IH Cons.prems(2,3) by simp
  qed
qed

lemma identify_cluster_preserves:
  assumes "identify_cluster f c s = Inr s'"
    and "list_all (\<lambda>p. p < length (param_groups f)) (members c)"
    and "Q (triple s)"
    and "\<And>p tops s s'. p < length (param_groups f) \<Longrightarrow> eligible (param_groups f ! p) \<Longrightarrow>
           Q (triple s) \<Longrightarrow>
           identify_group (group_divisible f) (param_groups f ! p) p tops s = Inr s' \<Longrightarrow>
           Q (triple s')"
  shows "Q (triple s')"
proof (cases "length (cluster_importance_scores s (cluster_name c)) = 0")
  case True
  with assms(1,3) show ?thesis by (simp add: identify_cluster_def)
next
  case False
  with assms(1) obtain tops where
    "identify_groups f (members c) tops
       (s\<lparr> pruned_group_idx_by_cluster :=
             (pruned_group_idx_by_cluster s)
               (cluster_name c := pruned_group_idx_by_cluster s (cluster_name c) @ tops) \<rparr>) = Inr s'"
    by (auto simp: identify_cluster_def Let_def split: option.splits sum.splits)
  from identify_groups_preserves [where Q = Q, OF this assms(2) _ assms(4)] assms(3)
  show ?thesis by simp
qed

lemma identify_clusters_preserves:
  assumes "identify_clusters f cs s = Inr s'"
    and "list_all (\<lambda>c. list_all (\<lambda>p. p < length (param_groups f)) (members c)) cs"
    and "Q (triple s)"
    and "\<And>p tops s s'. p < length (param_groups f) \<Longrightarrow> eligible (param_groups f ! p) \<Longrightarrow>
           Q (triple s) \<Longrightarrow>
           identify_group (group_divisible f) (param_groups f ! p) p tops s = Inr s' \<Longrightarrow>
           Q (triple s')"
  shows "Q (triple s')"
  using assms(1-3)
proof (induction cs arbitrary: s)
  case Nil
  then show ?case by simp
next
  case (Cons c cs)
  from Cons.prems(1) obtain s1 where
    s1: "identify_cluster f c s = Inr s1" and rest: "identify_clusters f cs s1 = Inr s'"
    by (auto split: sum.splits)
  have "Q (triple s1)"
    using identify_cluster_preserves [where Q = Q, OF s1 _ Cons.prems(3) assms(4)] Cons.prems(2)
    by simp
  then show ?case
    using Cons.IH [OF rest] Cons.prems(2) by simp
qed

lemma schedule_preserves:
  assumes "schedule f sc s = Inr s'"
    and "members_ok f"
    and "Q (triple s)"
    and "\<And>s. Q (triple s) \<Longrightarrow> Q (triple (commit_redundant_idxes f s))"
    and "\<And>p tops s s'. p < length (param_groups f) \<Longrightarrow> eligible (param_groups f ! p) \<Longrightarrow>
           Q (triple s) \<Longrightarrow>
           identify_group (group_divisible f) (param_groups f ! p) p tops s = Inr s' \<Longrightarrow>
           Q (triple s')"
  shows "Q (triple s')"
proof (cases "s' = s")
  case True
  with assms(3) show ?thesis by simp
next
  case False
  with assms(1) obtain s1 where
    s1: "identify_clusters f (clusters f)
           (compute_importance_scores f sc (commit_redundant_idxes f s)) = Inr s1"
    and s': "s' = s1\<lparr> curr_pruning_period := curr_pruning_period s1 + 1 \<rparr>"
    by (auto simp: schedule_def identify_redundant_groups_def split: if_splits sum.splits)
  have "Q (triple (compute_importance_scores f sc (commit_redundant_idxes f s)))"
    using assms(4) [OF assms(3)] by (simp add: compute_importance_scores_def)
  from identify_clusters_preserves [where Q = Q, OF s1 _ this assms(5)] assms(2)
  show ?thesis by (simp add: s' members_ok_def)
qed

lemma step_sched:
  assumes "step e inp st = Inr st'"
  shows "\<exists>s1 s2 nz.
           schedule (fixed st) (scores inp)
             ((sched st)\<lparr> num_steps := num_steps (sched st) + 1 \<rparr>) = Inr s1
           \<and> (s2 = s1 \<or> s2 = commit_redundant_idxes (fixed st) s1)
           \<and> sched st' = s2\<lparr> curr_num_zero_groups := nz \<rparr>
           \<and> fixed st' = fixed st"
proof -
  from assms obtain s1 t nu1 nz where
    s1: "schedule (fixed st) (scores inp)
           ((sched st)\<lparr> num_steps := num_steps (sched st) + 1 \<rparr>) = Inr s1"
    and st': "st' = \<lparr> fixed = fixed st,
                     sched = (if start_pruning_step (fixed st) \<le> num_steps s1
                                 \<and> t = pruning_period_duration (fixed st) - 1
                              then commit_redundant_idxes (fixed st) s1 else s1)
                             \<lparr> curr_num_zero_groups := nz \<rparr>,
                     store = nu1 \<rparr>"
    by (auto simp: step_def Let_def split: sum.splits)
  define s2 where
    "s2 = (if start_pruning_step (fixed st) \<le> num_steps s1
              \<and> t = pruning_period_duration (fixed st) - 1
           then commit_redundant_idxes (fixed st) s1 else s1)"
  have a: "s2 = s1 \<or> s2 = commit_redundant_idxes (fixed st) s1"
    by (simp add: s2_def)
  have b: "sched st' = s2\<lparr> curr_num_zero_groups := nz \<rparr>"
    by (simp only: st' s2_def lhspg.simps)
  have c: "fixed st' = fixed st"
    by (simp only: st' lhspg.simps)
  from s1 a b c show ?thesis
    by blast
qed

lemma step_preserves:
  assumes "step e inp st = Inr st'"
    and "members_ok (fixed st)"
    and "Q (triple (sched st))"
    and "\<And>s. Q (triple s) \<Longrightarrow> Q (triple (commit_redundant_idxes (fixed st) s))"
    and "\<And>p tops s s'. p < length (param_groups (fixed st)) \<Longrightarrow>
           eligible (param_groups (fixed st) ! p) \<Longrightarrow> Q (triple s) \<Longrightarrow>
           identify_group (group_divisible (fixed st)) (param_groups (fixed st) ! p) p tops s
             = Inr s' \<Longrightarrow>
           Q (triple s')"
  shows "Q (triple (sched st'))"
proof -
  from step_sched [OF assms(1)] obtain s1 s2 nz where
    s1: "schedule (fixed st) (scores inp)
           ((sched st)\<lparr> num_steps := num_steps (sched st) + 1 \<rparr>) = Inr s1"
    and s2: "s2 = s1 \<or> s2 = commit_redundant_idxes (fixed st) s1"
    and st': "sched st' = s2\<lparr> curr_num_zero_groups := nz \<rparr>"
    by blast
  have "Q (triple s1)"
    using schedule_preserves [where Q = Q, OF s1 assms(2) _ assms(4,5)] assms(3) by simp
  then have "Q (triple s2)"
    using s2 assms(4) by auto
  then show "Q (triple (sched st'))"
    by (simp add: st')
qed

lemma step_fixed: "step e inp st = Inr st' \<Longrightarrow> fixed st' = fixed st"
  using step_sched by blast

lemma run_fixed: "run e inps st = Inr st' \<Longrightarrow> fixed st' = fixed st"
proof (induction inps arbitrary: st)
  case Nil
  then show ?case by simp
next
  case (Cons inp inps)
  then show ?case
    by (auto split: sum.splits dest: step_fixed)
qed

lemma run_preserves:
  assumes "run e inps st = Inr st'"
    and "fixed st = f"
    and "members_ok f"
    and "Q (triple (sched st))"
    and "\<And>s. Q (triple s) \<Longrightarrow> Q (triple (commit_redundant_idxes f s))"
    and "\<And>p tops s s'. p < length (param_groups f) \<Longrightarrow>
           eligible (param_groups f ! p) \<Longrightarrow> Q (triple s) \<Longrightarrow>
           identify_group (group_divisible f) (param_groups f ! p) p tops s = Inr s' \<Longrightarrow>
           Q (triple s')"
  shows "Q (triple (sched st'))"
  using assms(1,2,4)
proof (induction inps arbitrary: st)
  case Nil
  then show ?case by simp
next
  case (Cons inp inps)
  from Cons.prems(1) obtain st1 where
    st1: "step e inp st = Inr st1" and rest: "run e inps st1 = Inr st'"
    by (auto split: sum.splits)
  have f: "fixed st1 = f"
    using step_fixed [OF st1] Cons.prems(2) by simp
  have "Q (triple (sched st1))"
  proof (rule step_preserves [where Q = Q, OF st1])
    show "members_ok (fixed st)"
      using assms(3) Cons.prems(2) by simp
    show "Q (triple (sched st))"
      by (rule Cons.prems(3))
    show "Q (triple (commit_redundant_idxes (fixed st) s))" if "Q (triple s)" for s
      using assms(5) [OF that] Cons.prems(2) by simp
    show "Q (triple s')"
      if "p < length (param_groups (fixed st))" "eligible (param_groups (fixed st) ! p)"
        "Q (triple s)"
        "identify_group (group_divisible (fixed st)) (param_groups (fixed st) ! p) p tops s
           = Inr s'"
      for p tops s s'
      using assms(6) [of p s tops s'] that Cons.prems(2) by simp
  qed
  then show ?case
    using Cons.IH [OF rest f] by simp
qed

lemma init_fixed:
  assumes "init e a = Inr st"
  shows "param_groups (fixed st) = arg_params a"
    and "group_divisible (fixed st) = arg_group_divisible a"
    and "clusters (fixed st) =
           map (make_cluster (arg_params a) (max 1 (arg_pruning_periods a)))
             (sparsity_dict (arg_target_group_sparsity a))"
    and "sched st = init_sched (arg_params a) (clusters (fixed st)) (curr_num_zero_groups (sched st))"
  using assms
  by (auto simp: init_def Let_def init_sched_def split: if_splits sum.splits)

lemma members_make_cluster [simp]:
  "members (make_cluster gs periods entry) = cluster_members gs (fst entry)"
  "cluster_name (make_cluster gs periods entry) = fst entry"
  by (simp_all add: make_cluster_def Let_def)

lemma init_members_ok:
  assumes "init e a = Inr st"
  shows "members_ok (fixed st)"
  unfolding members_ok_def init_fixed(1,3) [OF assms]
  by (simp add: list_all_iff cluster_members_def)

lemma init_important:
  assumes "distinct (map group_id gs)" and "g \<in> set gs"
  shows "fold (\<lambda>g m. m(group_id g := [0..<num_groups g])) gs m0 (group_id g) = [0..<num_groups g]"
  using assms
proof (induction gs arbitrary: m0)
  case Nil
  then show ?case by simp
next
  case (Cons h gs)
  show ?case
  proof (cases "g \<in> set gs")
    case True
    then show ?thesis using Cons by simp
  next
    case False
    then have gh: "g = h" using Cons.prems by simp
    have other: "fold (\<lambda>g m. m(group_id g := [0..<num_groups g])) gs m1 i = m1 i"
      if "i \<notin> group_id ` set gs" for i m1
      using that by (induction gs arbitrary: m1) auto
    have "group_id h \<notin> group_id ` set gs"
      using Cons.prems(1) by simp
    from other [OF this]
    have "fold (\<lambda>g m. m(group_id g := [0..<num_groups g])) gs
            (m0(group_id h := [0..<num_groups h])) (group_id h)
          = (m0(group_id h := [0..<num_groups h])) (group_id h)" .
    then show ?thesis
      unfolding gh by (simp only: fold_simps fun_upd_same)
  qed
qed

lemma distinct_ids_eq:
  assumes "distinct (map group_id gs)" and "g \<in> set gs" and "p < length gs"
    and "group_id g = group_id (gs ! p)"
  shows "g = gs ! p"
proof -
  from assms(2) obtain q where q: "q < length gs" "gs ! q = g"
    by (auto simp: in_set_conv_nth)
  have "map group_id gs ! q = map group_id gs ! p"
    using q assms(3,4) by simp
  moreover have "q < length (map group_id gs)" "p < length (map group_id gs)"
    using q(1) assms(3) by simp_all
  ultimately have "q = p"
    using nth_eq_iff_index_eq [OF assms(1)] by blast
  with q show ?thesis by simp
qed

lemma candidates_length: "length (candidates tops start n) \<le> n"
proof -
  have "card (set (candidates tops start n)) \<le> card {..<n}"
    by (rule card_mono) (auto simp: candidates_props(2))
  then show ?thesis
    by (simp add: distinct_card [OF candidates_props(1)])
qed

lemma new_active_at_divisor:
  assumes "1 \<le> n" and "length cand \<le> n"
  shows "new_active (int n) n n 0 cand = []"
proof (cases "cand = []")
  case True
  then show ?thesis
    using assms by (simp add: new_active_def Let_def py_take_def)
next
  case False
  define trial where "trial = int n - int (length cand)"
  have t: "0 \<le> trial" "trial < int n"
    using False assms by (simp_all add: trial_def)
  then have "trial div int n = 0"
    by simp
  then have r: "refined_num_important_groups (int n) (int n) trial = int n"
    using assms by (simp add: refined_num_important_groups_def Let_def)
  have c: "trial mod int n \<noteq> 0 \<or> trial \<le> 0"
    using t by (cases "trial = 0") simp_all
  have "new_active (int n) n n 0 cand
          = (if trial mod int n \<noteq> 0 \<or> trial \<le> 0
             then py_take (int n - int 0 - refined_num_important_groups (int n) (int n) trial) cand
             else cand)"
    unfolding new_active_def Let_def trial_def by simp
  also have "\<dots> = py_take (int n - int 0 - int n) cand"
    using c by (simp only: r if_True)
  also have "\<dots> = []"
    by (simp add: py_take_def)
  finally show ?thesis .
qed

lemma never_pruned_commit:
  assumes "distinct (map group_id (param_groups f))"
    and "never_pruned d (param_groups f) (triple s)"
  shows "never_pruned d (param_groups f) (triple (commit_redundant_idxes f s))"
  unfolding never_pruned_def
proof (intro ballI impI)
  fix g assume g: "g \<in> set (param_groups f)" "int (num_groups g) = d"
  from assms(2) g have old:
    "important_idxes s (group_id g) = [0..<num_groups g]"
    "pruned_idxes s (group_id g) = []" "active_redundant_idxes s (group_id g) = []"
    by (auto simp: never_pruned_def triple_def)
  note eff = commit_loop_effect [OF assms(1), where s = s and i = "group_id g"]
  have "important_idxes (commit_loop (param_groups f) s) (group_id g) = [0..<num_groups g]"
  proof (cases "eligible g")
    case True
    then show ?thesis
      using eff(3) [OF g(1) refl True] old by simp
  next
    case False
    have "\<not> (\<exists>h\<in>set (param_groups f). group_id h = group_id g \<and> eligible h)"
    proof
      assume "\<exists>h\<in>set (param_groups f). group_id h = group_id g \<and> eligible h"
      then obtain h where h: "h \<in> set (param_groups f)" "group_id h = group_id g" "eligible h"
        by blast
      from g(1) obtain p where p: "p < length (param_groups f)" "param_groups f ! p = g"
        by (auto simp: in_set_conv_nth)
      have "h = g"
        using distinct_ids_eq [OF assms(1) h(1) p(1)] h(2) p(2) by simp
      with h(3) False show False by simp
    qed
    then show ?thesis
      using eff(4) old by simp
  qed
  moreover have "pruned_idxes (commit_loop (param_groups f) s) (group_id g) = []"
    using eff(1) old by simp
  moreover have "active_redundant_idxes (commit_loop (param_groups f) s) (group_id g) = []"
    using eff(2) old by simp
  ultimately show "fst (triple (commit_redundant_idxes f s)) (group_id g) = [0..<num_groups g]
      \<and> fst (snd (triple (commit_redundant_idxes f s))) (group_id g) = []
      \<and> snd (snd (triple (commit_redundant_idxes f s))) (group_id g) = []"
    by (simp add: triple_def commit_redundant_idxes_def)
qed

lemma never_pruned_identify:
  assumes "distinct (map group_id gs)" and "1 \<le> d"
    and "p < length gs"
    and "never_pruned d gs (triple s)"
    and "identify_group d (gs ! p) p tops s = Inr s'"
  shows "never_pruned d gs (triple s')"
  unfolding never_pruned_def
proof (intro ballI impI)
  fix g assume g: "g \<in> set gs" "int (num_groups g) = d"
  from assms(4) g have old:
    "important_idxes s (group_id g) = [0..<num_groups g]"
    "pruned_idxes s (group_id g) = []" "active_redundant_idxes s (group_id g) = []"
    by (auto simp: never_pruned_def triple_def)
  note eff = identify_group_effect [OF assms(5)]
  show "fst (triple s') (group_id g) = [0..<num_groups g]
      \<and> fst (snd (triple s')) (group_id g) = [] \<and> snd (snd (triple s')) (group_id g) = []"
  proof (cases "group_id g = group_id (gs ! p)")
    case True
    then have gp: "gs ! p = g"
      using distinct_ids_eq [OF assms(1) g(1) assms(3)] by simp
    have n1: "1 \<le> num_groups g"
      using g(2) assms(2) by simp
    have "new_active d (num_groups g) (num_groups g) 0
            (candidates tops (global_start_idx s p) (num_groups g)) = []"
      using new_active_at_divisor [OF n1 candidates_length] g(2) by simp
    then have a: "active_redundant_idxes s' (group_id g) = []"
      using old by (simp add: eff(1) gp)
    have b: "pruned_idxes s' (group_id g) = []"
      using old by (simp add: eff(2) gp)
    have "important_idxes s' (group_id g) = [0..<num_groups g]"
      by (subst eff(3)) (simp add: gp a b old)
    with a b show ?thesis by (simp add: triple_def)
  next
    case False
    then show ?thesis
      using old by (simp add: triple_def eff(1,2,3))
  qed
qed

lemma run_from_init_split:
  assumes "run_from_init e a inps = Inr st"
  obtains st0 where "init e a = Inr st0" and "run e inps st0 = Inr st"
  using assms by (auto simp: run_from_init_def split: sum.splits)

lemma init_triple:
  assumes "init e a = Inr st0"
  shows "triple (sched st0) =
           (fold (\<lambda>g m. m(group_id g := [0..<num_groups g])) (arg_params a) (\<lambda>_. []),
            (\<lambda>_. []), (\<lambda>_. []))"
  by (subst init_fixed(4) [OF assms]) (simp add: triple_def init_sched_def)

subsection \<open>A group as large as the divisor\<close>

text \<open>
  C6. With \<open>group_divisible = 4\<close>, a parameter group of 4 groups is never pruned: after
  the constructor and after any number of calls of \<open>step\<close>, whatever the scores, the
  gradients and the target sparsity, its pruned and active redundant index lists are
  empty and its important indices are 0, 1, 2, 3. (Group ids are unique, as the data
  model says.)
\<close>

theorem group_at_divisor_never_pruned:
  assumes "run_from_init e a inps = Inr st"
    and "distinct (map group_id (arg_params a))"
    and "g \<in> set (arg_params a)"
    and "num_groups g = 4" and "arg_group_divisible a = 4"
  shows "pruned_idxes (sched st) (group_id g) = []
         \<and> active_redundant_idxes (sched st) (group_id g) = []
         \<and> important_idxes (sched st) (group_id g) = [0, 1, 2, 3]"
proof -
  from assms(1) obtain st0 where i: "init e a = Inr st0" and r: "run e inps st0 = Inr st"
    by (rule run_from_init_split)
  let ?f = "fixed st0"
  have gs: "param_groups ?f = arg_params a" and d: "group_divisible ?f = 4"
    using init_fixed(1,2) [OF i] assms(5) by simp_all
  have dist: "distinct (map group_id (param_groups ?f))"
    using assms(2) gs by simp
  have q0: "never_pruned 4 (param_groups ?f) (triple (sched st0))"
    unfolding never_pruned_def init_triple [OF i] gs
    using init_important [OF assms(2)] by simp
  have "never_pruned 4 (param_groups ?f) (triple (sched st))"
  proof (rule run_preserves [where Q = "never_pruned 4 (param_groups ?f)", OF r refl])
    show "members_ok ?f" by (rule init_members_ok [OF i])
    show "never_pruned 4 (param_groups ?f) (triple (sched st0))" by (rule q0)
    show "never_pruned 4 (param_groups ?f) (triple (commit_redundant_idxes ?f s))"
      if "never_pruned 4 (param_groups ?f) (triple s)" for s
      by (rule never_pruned_commit [OF dist that])
    show "never_pruned 4 (param_groups ?f) (triple s')"
      if "p < length (param_groups ?f)" "never_pruned 4 (param_groups ?f) (triple s)"
        "identify_group (group_divisible ?f) (param_groups ?f ! p) p tops s = Inr s'"
      for p tops s s'
      using never_pruned_identify [OF dist _ that(1,2)] that(3) d by simp
  qed
  then have "important_idxes (sched st) (group_id g) = [0..<num_groups g]
             \<and> pruned_idxes (sched st) (group_id g) = []
             \<and> active_redundant_idxes (sched st) (group_id g) = []"
    using assms(3,4) gs by (simp add: never_pruned_def triple_def)
  moreover have "[0..<4] = [0, 1, 2, 3::nat]"
    by (simp add: upt_conv_Cons)
  ultimately show ?thesis
    using assms(4) by simp
qed

theorem group_at_divisor_never_pruned_witness:
  "\<not> isl (run_from_init example_env (fc_args (PerCluster [(''fc'', 1 / 2)]) 3 1 4) [round1_input])
   \<and> distinct (map group_id (arg_params (fc_args (PerCluster [(''fc'', 1 / 2)]) 3 1 4)))
   \<and> fc_group \<in> set (arg_params (fc_args (PerCluster [(''fc'', 1 / 2)]) 3 1 4))
   \<and> num_groups fc_group = 4
   \<and> arg_group_divisible (fc_args (PerCluster [(''fc'', 1 / 2)]) 3 1 4) = 4
   \<and> pruned_idxes
        (sched (projr (run_from_init example_env
                         (fc_args (PerCluster [(''fc'', 1 / 2)]) 3 1 4) [round1_input])))
        (group_id fc_group) = []
   \<and> important_idxes
        (sched (projr (run_from_init example_env
                         (fc_args (PerCluster [(''fc'', 1 / 2)]) 3 1 4) [round1_input])))
        (group_id fc_group) = [0, 1, 2, 3]"
proof -
  define a where "a = fc_args (PerCluster [(''fc'', 1 / 2)]) 3 1 4"
  define st where "st = projr (run_from_init example_env a [round1_input])"
  have r: "run_from_init example_env a [round1_input] = Inr st"
    unfolding st_def a_def
    by (simp add: init_defs example_defs step_defs sched_defs update_defs)
  have h: "distinct (map group_id (arg_params a))" "fc_group \<in> set (arg_params a)"
    "num_groups fc_group = 4" "arg_group_divisible a = 4"
    by (simp_all add: a_def fc_args_def fc_group_def)
  note group_at_divisor_never_pruned [OF r h]
  with r h show ?thesis
    by (simp add: a_def [symmetric] st_def [symmetric])
qed

subsection \<open>Pruned indices only grow\<close>

lemma pruned_grows_commit:
  assumes "distinct (map group_id (param_groups f))"
    and "pruned_grows d (param_groups f) pr0 (triple s)"
  shows "pruned_grows d (param_groups f) pr0 (triple (commit_redundant_idxes f s))"
proof -
  note eff = commit_loop_effect(1,2) [OF assms(1), where s = s]
  have "pruned_idxes (commit_loop (param_groups f) s) (group_id g) = []
        \<and> active_redundant_idxes (commit_loop (param_groups f) s) (group_id g) = []"
    if "g \<in> set (param_groups f)" "int (num_groups g) < d" for g
  proof -
    from assms(2) that have "pruned_idxes s (group_id g) = []"
      "active_redundant_idxes s (group_id g) = []"
      by (auto simp: pruned_grows_def triple_def)
    then show ?thesis
      by (simp add: eff)
  qed
  moreover have "length (pr0 i) \<le> length (pruned_idxes (commit_loop (param_groups f) s) i)" for i
  proof -
    have "length (pr0 i) \<le> length (pruned_idxes s i)"
      using assms(2) by (simp add: pruned_grows_def triple_def)
    then show ?thesis
      by (simp add: eff)
  qed
  ultimately show ?thesis
    by (simp add: pruned_grows_def triple_def commit_redundant_idxes_def)
qed

lemma pruned_grows_identify:
  assumes "distinct (map group_id gs)"
    and "p < length gs"
    and "pruned_grows d gs pr0 (triple s)"
    and "identify_group d (gs ! p) p tops s = Inr s'"
  shows "pruned_grows d gs pr0 (triple s')"
proof -
  note eff = identify_group_effect(1,2) [OF assms(4)]
  have small: "pruned_idxes s (group_id g) = [] \<and> active_redundant_idxes s (group_id g) = []"
    if "g \<in> set gs" "int (num_groups g) < d" for g
    using assms(3) that by (auto simp: pruned_grows_def triple_def)
  have gp: "gs ! p \<in> set gs"
    using assms(2) by simp
  have same: "pruned_idxes s' = pruned_idxes s"
  proof (cases "int (num_groups (gs ! p)) < d")
    case True
    then have "pruned_idxes s (group_id (gs ! p)) = []"
      using small [OF gp] by simp
    then have "(pruned_idxes s)(group_id (gs ! p) := []) = pruned_idxes s"
      by (metis fun_upd_triv)
    then show ?thesis
      using True by (simp add: eff(2))
  next
    case False
    then show ?thesis
      by (simp add: eff(2))
  qed
  have "pruned_idxes s' (group_id g) = [] \<and> active_redundant_idxes s' (group_id g) = []"
    if g: "g \<in> set gs" "int (num_groups g) < d" for g
  proof (cases "group_id g = group_id (gs ! p)")
    case True
    then have "gs ! p = g"
      using distinct_ids_eq [OF assms(1) g(1) assms(2)] by simp
    then show ?thesis
      using small [OF g] g(2) by (simp add: same eff(1) new_active_def)
  next
    case False
    then show ?thesis
      using small [OF g] by (simp add: same eff(1))
  qed
  moreover have "length (pr0 i) \<le> length (pruned_idxes s' i)" for i
    using assms(3) by (simp add: same pruned_grows_def triple_def)
  ultimately show ?thesis
    by (simp add: pruned_grows_def triple_def)
qed

text \<open>
  C7. The total number of permanently pruned groups, summed over the parameter groups,
  never decreases from one call of \<open>step\<close> to the next: in any state reached from the
  constructor, a further call of \<open>step\<close> that returns leaves the total at least as
  large. (Group ids are unique, as the data model says.)
\<close>

theorem total_pruned_never_decreases:
  assumes "run_from_init e a inps = Inr st"
    and "step e inp st = Inr st'"
    and "distinct (map group_id (arg_params a))"
  shows "total_pruned st \<le> total_pruned st'"
proof -
  from assms(1) obtain st0 where i: "init e a = Inr st0" and r: "run e inps st0 = Inr st"
    by (rule run_from_init_split)
  let ?f = "fixed st0"
  let ?d = "group_divisible ?f"
  have gs: "param_groups ?f = arg_params a"
    using init_fixed(1) [OF i] .
  have dist: "distinct (map group_id (param_groups ?f))"
    using assms(3) gs by simp
  have f: "fixed st = ?f"
    using run_fixed [OF r] .
  have f': "fixed st' = ?f"
    using step_fixed [OF assms(2)] f by simp
  have ok: "members_ok ?f"
    by (rule init_members_ok [OF i])
  have q0: "pruned_grows ?d (param_groups ?f) (\<lambda>_. []) (triple (sched st0))"
    unfolding pruned_grows_def init_triple [OF i] by simp
  have q: "pruned_grows ?d (param_groups ?f) (\<lambda>_. []) (triple (sched st))"
  proof (rule run_preserves [where Q = "pruned_grows ?d (param_groups ?f) (\<lambda>_. [])", OF r refl ok q0])
    show "pruned_grows ?d (param_groups ?f) (\<lambda>_. []) (triple (commit_redundant_idxes ?f s))"
      if "pruned_grows ?d (param_groups ?f) (\<lambda>_. []) (triple s)" for s
      by (rule pruned_grows_commit [OF dist that])
    show "pruned_grows ?d (param_groups ?f) (\<lambda>_. []) (triple s')"
      if "p < length (param_groups ?f)" "pruned_grows ?d (param_groups ?f) (\<lambda>_. []) (triple s)"
        "identify_group ?d (param_groups ?f ! p) p tops s = Inr s'"
      for p tops s s'
      by (rule pruned_grows_identify [OF dist that])
  qed
  let ?pr = "pruned_idxes (sched st)"
  have q1: "pruned_grows ?d (param_groups ?f) ?pr (triple (sched st))"
    using q by (simp add: pruned_grows_def triple_def)
  have "pruned_grows ?d (param_groups ?f) ?pr (triple (sched st'))"
  proof (rule step_preserves [where Q = "pruned_grows ?d (param_groups ?f) ?pr", OF assms(2)])
    show "members_ok (fixed st)"
      using ok f by simp
    show "pruned_grows ?d (param_groups ?f) ?pr (triple (sched st))"
      by (rule q1)
    show "pruned_grows ?d (param_groups ?f) ?pr (triple (commit_redundant_idxes (fixed st) s))"
      if "pruned_grows ?d (param_groups ?f) ?pr (triple s)" for s
      unfolding f by (rule pruned_grows_commit [OF dist that])
    show "pruned_grows ?d (param_groups ?f) ?pr (triple s')"
      if "p < length (param_groups (fixed st))"
        "pruned_grows ?d (param_groups ?f) ?pr (triple s)"
        "identify_group (group_divisible (fixed st)) (param_groups (fixed st) ! p) p tops s
           = Inr s'"
      for p tops s s'
      using pruned_grows_identify [OF dist _ that(2)] that(1,3) f by simp
  qed
  then have "length (pruned_idxes (sched st) i) \<le> length (pruned_idxes (sched st') i)" for i
    by (simp add: pruned_grows_def triple_def)
  then show ?thesis
    unfolding total_pruned_def f f'
    by (intro sum_list_mono) simp
qed

theorem total_pruned_never_decreases_witness:
  "\<not> isl (run_from_init example_env (fc_args (PerCluster [(''fc'', 1 / 2)]) 2 2 1) [round1_input])
   \<and> \<not> isl (step example_env round2_input
              (projr (run_from_init example_env
                        (fc_args (PerCluster [(''fc'', 1 / 2)]) 2 2 1) [round1_input])))
   \<and> distinct (map group_id (arg_params (fc_args (PerCluster [(''fc'', 1 / 2)]) 2 2 1)))
   \<and> total_pruned (projr (run_from_init example_env
                              (fc_args (PerCluster [(''fc'', 1 / 2)]) 2 2 1) [round1_input])) = 1
   \<and> total_pruned (projr (step example_env round2_input
              (projr (run_from_init example_env
                        (fc_args (PerCluster [(''fc'', 1 / 2)]) 2 2 1) [round1_input])))) = 2"
proof -
  define a where "a = fc_args (PerCluster [(''fc'', 1 / 2)]) 2 2 1"
  define st where "st = projr (run_from_init example_env a [round1_input])"
  define st' where "st' = projr (step example_env round2_input st)"
  have r: "run_from_init example_env a [round1_input] = Inr st"
    unfolding st_def a_def
    by (simp add: init_defs example_defs step_defs sched_defs update_defs)
  have s: "step example_env round2_input st = Inr st'"
    unfolding st'_def st_def a_def
    by (simp add: init_defs example_defs step_defs sched_defs update_defs)
  have h: "distinct (map group_id (arg_params a))"
    by (simp add: a_def fc_args_def)
  have t: "total_pruned st = 1"
    unfolding st_def a_def total_pruned_def
    by (simp add: init_defs example_defs step_defs sched_defs update_defs)
  have t': "total_pruned st' = 2"
    unfolding st'_def st_def a_def total_pruned_def
    by (simp add: init_defs example_defs step_defs sched_defs update_defs)
  note total_pruned_never_decreases [OF r s h]
  with r s h t t' show ?thesis
    by (simp add: a_def [symmetric] st_def [symmetric] st'_def [symmetric])
qed

subsection \<open>The invariant of one group\<close>









subsection \<open>Global start indices\<close>






subsection \<open>The invariant of the schedule\<close>











lemma inv_frame [simp]:
  "groups_ok f (s\<lparr> curr_pruning_period := x \<rparr>) = groups_ok f s"
  "recorded f (s\<lparr> curr_pruning_period := x \<rparr>) = recorded f s"
  "groups_ok f (s\<lparr> num_steps := y \<rparr>) = groups_ok f s"
  "recorded f (s\<lparr> num_steps := y \<rparr>) = recorded f s"
  "groups_ok f (s\<lparr> curr_num_zero_groups := z \<rparr>) = groups_ok f s"
  "recorded f (s\<lparr> curr_num_zero_groups := z \<rparr>) = recorded f s"
  "groups_ok f (compute_importance_scores f sc s) = groups_ok f s"
  "recorded f (compute_importance_scores f sc s) = recorded f s"
  by (simp_all add: groups_ok_def recorded_def compute_importance_scores_def)








subsection \<open>The index sets of a group\<close>








end
